theory Spec2Isabelle
  imports Complex_Main "HOL-Library.Multiset"
begin

section \<open>Starship re-entry simulation: trajectory integrator and heat-field shader\<close>

text \<open>
  A shallow embedding of \<^verbatim>\<open>src/App.js\<close> (the per-frame physics step of the
  \<^verbatim>\<open>Starship\<close> component and the fragment shader of \<^verbatim>\<open>AtmosphereMaterial\<close>) and of
  its lineage variants (the quadratic-drag step and the ray-marching shader).

  The step is modelled twice. The first model idealises JavaScript numbers as \<^typ>\<open>real\<close>
  (exact arithmetic); it carries the properties that do not depend on rounding. The
  second model (\<open>Starship_useFrame_double\<close>) evaluates the same statements in IEEE
  binary64 with round-to-nearest-even, overflow to infinity, underflow to zero and NaN;
  it carries the properties where rounding, overflow or NaN decide.

  The shaders are modelled over \<^typ>\<open>real\<close>, with the IEEE results written out where the
  code divides by a direction component that may be zero (\<open>glfloat\<close>) and where the
  squared length of a direction underflows in float32 (\<open>normalize_vec3\<close>), rather than
  left to HOL's \<open>x / 0 = 0\<close>.
\<close>

subsection \<open>Simulation state and the per-frame step\<close>

record simulationState =
  altitude :: real
  speed :: real
  effectiveHeat :: real

text \<open>The quadratic-drag variant also publishes the raw flux.\<close>

record simulationStateFlux = simulationState +
  plasmaFluxDensity :: real

definition rho0 :: real where
  "rho0 = 1.225"

definition scaleHeight :: real where
  "scaleHeight = 8400"

definition scalingFactor :: real where
  "scalingFactor = 0.000000000012"

definition terminalVelocity :: real where
  "terminalVelocity = 200"

text \<open>
  Two locals of the callback that every variant computes in the same way, as functions of
  what they read: the exponential atmosphere and the magnetic shielding factor.
\<close>

definition density :: "real \<Rightarrow> real" where
  "density alt = rho0 * exp (- alt / scaleHeight)"

definition reductionFactor :: "real \<Rightarrow> real" where
  "reductionFactor magnetPower = 1 - magnetPower / 5"

text \<open>
  The \<^verbatim>\<open>useFrame\<close> callback of \<^verbatim>\<open>Starship\<close> in \<^verbatim>\<open>src/App.js\<close> (the ray-marching
  variant has the same body). A \<^verbatim>\<open>return\<close> before \<^verbatim>\<open>setSimulationState\<close> leaves the
  state as it was; otherwise the state is replaced by the new object.
\<close>

definition Starship_useFrame ::
  "bool \<Rightarrow> real \<Rightarrow> simulationState \<Rightarrow> real \<Rightarrow> simulationState" where
  "Starship_useFrame isRunning magnetPower simulationState delta =
     (if \<not> isRunning then simulationState
      else if altitude simulationState \<le> 0 then simulationState
      else
        let rho = density (altitude simulationState);
            heatFlux = rho * speed simulationState ^ 3;
            effHeat = heatFlux * reductionFactor magnetPower * scalingFactor;
            g = 9.81;
            dragDeceleration = rho * 0.81 * speed simulationState;
            computedSpeed = speed simulationState - (g + dragDeceleration) * delta;
            newSpeed = (if altitude simulationState > 0
                        then max computedSpeed terminalVelocity else 0);
            newAltitude = max (altitude simulationState - newSpeed * delta) 0
        in \<lparr>altitude = newAltitude, speed = newSpeed, effectiveHeat = effHeat\<rparr>)"

text \<open>
  The quadratic-drag variant of the same callback (first variant of the lineage file):
  drag force \<open>0.5 * density * speed\<^sup>2 * 0.81 * (50 * 10)\<close>, reference mass \<open>2e5\<close>.
\<close>

definition Starship_useFrame_quadratic ::
  "bool \<Rightarrow> real \<Rightarrow> simulationStateFlux \<Rightarrow> real \<Rightarrow> simulationStateFlux" where
  "Starship_useFrame_quadratic isRunning magnetPower simulationState delta =
     (if \<not> isRunning then simulationState
      else if altitude simulationState \<le> 0 then simulationState
      else
        let rho = density (altitude simulationState);
            plasmaFlux = rho * speed simulationState ^ 3;
            F_drag = 0.5 * rho * speed simulationState ^ 2 * 0.81 * (50 * 10);
            a = - 9.81 - (F_drag / 200000);
            newSpeed = (if altitude simulationState > 0
                        then max (speed simulationState + a * delta) terminalVelocity else 0);
            newAltitude = max (altitude simulationState - newSpeed * delta) 0;
            effHeat = plasmaFlux * reductionFactor magnetPower * scalingFactor
        in \<lparr>altitude = newAltitude, speed = newSpeed, effectiveHeat = effHeat,
            plasmaFluxDensity = plasmaFlux\<rparr>)"

text \<open>Repeated frames with the same parameters.\<close>

definition run_frames :: "nat \<Rightarrow> real \<Rightarrow> real \<Rightarrow> simulationState \<Rightarrow> simulationState" where
  "run_frames n magnetPower delta = (\<lambda>s. Starship_useFrame True magnetPower s delta) ^^ n"

subsection \<open>Vectors and shader uniforms\<close>

type_synonym vec3 = "real \<times> real \<times> real"

fun vadd :: "vec3 \<Rightarrow> vec3 \<Rightarrow> vec3" where
  "vadd (ax, ay, az) (bx, by, bz) = (ax + bx, ay + by, az + bz)"

fun vsub :: "vec3 \<Rightarrow> vec3 \<Rightarrow> vec3" where
  "vsub (ax, ay, az) (bx, by, bz) = (ax - bx, ay - by, az - bz)"

fun vscale :: "vec3 \<Rightarrow> real \<Rightarrow> vec3" where
  "vscale (ax, ay, az) k = (ax * k, ay * k, az * k)"

text \<open>GLSL \<^verbatim>\<open>max\<close> on vectors is componentwise.\<close>

fun vmax :: "vec3 \<Rightarrow> vec3 \<Rightarrow> vec3" where
  "vmax (ax, ay, az) (bx, by, bz) = (max ax bx, max ay by, max az bz)"

fun length_vec3 :: "vec3 \<Rightarrow> real" where
  "length_vec3 (x, y, z) = sqrt (x * x + y * y + z * z)"

text \<open>\<^verbatim>\<open>length(p.xz)\<close>: the horizontal distance from the axis of the volume.\<close>

fun length_xz :: "vec3 \<Rightarrow> real" where
  "length_xz (x, y, z) = sqrt (x * x + z * z)"

text \<open>
  GLSL \<^verbatim>\<open>normalize\<close> scales by the inverse square root of the squared length. In
  float32 a square of at most \<open>2\<^sup>-\<^sup>1\<^sup>5\<^sup>0\<close> rounds to zero, so a vector all of whose
  components are that short (the zero vector among them) has squared length 0 and no
  defined direction: the result is infinite or NaN. The model reports it as \<open>None\<close>.
  Squared lengths that overflow float32 (beyond about \<open>3.4e38\<close>) are not modelled.
\<close>

fun squares_underflow :: "vec3 \<Rightarrow> bool" where
  "squares_underflow (x, y, z) \<longleftrightarrow>
     x * x \<le> 1 / 2 ^ 150 \<and> y * y \<le> 1 / 2 ^ 150 \<and> z * z \<le> 1 / 2 ^ 150"

definition normalize_vec3 :: "vec3 \<Rightarrow> vec3 option" where
  "normalize_vec3 v =
     (if squares_underflow v then None else Some (vscale v (1 / length_vec3 v)))"

fun red :: "vec3 \<Rightarrow> real" where
  "red (r, g, b) = r"

fun green :: "vec3 \<Rightarrow> real" where
  "green (r, g, b) = g"

fun blue :: "vec3 \<Rightarrow> real" where
  "blue (r, g, b) = b"

text \<open>
  The uniforms of \<^verbatim>\<open>AtmosphereMaterial\<close>. The surface shader of \<^verbatim>\<open>src/App.js\<close> reads
  the first three only.
\<close>

record uniforms =
  effectiveHeat_uniform :: real
  baseTemp :: real
  plasmaThreshold :: real
  hDecayScale :: real
  vDecayScale :: real
  rayOrigin :: vec3
  boxHalfSize :: vec3

text \<open>The values the material is created with.\<close>

definition material_uniforms :: uniforms where
  "material_uniforms =
     \<lparr>effectiveHeat_uniform = 0, baseTemp = 300, plasmaThreshold = 3000,
      hDecayScale = 3.0, vDecayScale = 5.0, rayOrigin = (0, 0, 0),
      boxHalfSize = (50, 5, 50)\<rparr>"

text \<open>
  The code only ever writes \<^verbatim>\<open>effectiveHeat\<close> and \<^verbatim>\<open>rayOrigin\<close>; the other uniforms
  keep their initial values, for which the divisors below are non-zero. The theorems
  take this as the hypothesis \<open>valid_uniforms\<close>.
\<close>

definition valid_uniforms :: "uniforms \<Rightarrow> bool" where
  "valid_uniforms u \<longleftrightarrow>
     baseTemp u < plasmaThreshold u \<and> 0 < hDecayScale u \<and> 0 < vDecayScale u"

subsection \<open>Heat field and colour bands\<close>

definition plasmaColor :: vec3 where
  "plasmaColor = (128 / 255, 0, 128 / 255)"

text \<open>
  The two colour bands, the same \<^verbatim>\<open>if\<close>/\<^verbatim>\<open>else\<close> block in the surface shader and in
  the body of the ray-marching loop, as a function of the temperature.
\<close>

definition colorBands :: "uniforms \<Rightarrow> real \<Rightarrow> vec3" where
  "colorBands u temperature =
     (if temperature \<ge> plasmaThreshold u then (128 / 255, 0, 128 / 255)
      else
        let t = (temperature - baseTemp u) / (plasmaThreshold u - baseTemp u)
        in (t, 0, 1 - t))"

text \<open>The temperature at a fragment of the surface shader of \<^verbatim>\<open>src/App.js\<close>.\<close>

definition surface_temperature :: "uniforms \<Rightarrow> vec3 \<Rightarrow> real" where
  "surface_temperature u vPosition =
     (let d = length_xz vPosition;
          localHeat = effectiveHeat_uniform u * exp (- d / 3.0)
      in baseTemp u + localHeat * 1000000)"

text \<open>The fragment shader of \<^verbatim>\<open>src/App.js\<close>: colour and alpha of \<^verbatim>\<open>gl_FragColor\<close>.\<close>

definition surface_main :: "uniforms \<Rightarrow> vec3 \<Rightarrow> vec3 \<times> real" where
  "surface_main u vPosition = (colorBands u (surface_temperature u vPosition), 0.8)"

text \<open>The temperature at a sample position inside the ray-marching loop.\<close>

definition sample_temperature :: "uniforms \<Rightarrow> vec3 \<Rightarrow> real" where
  "sample_temperature u samplePos =
     (let horizontalFactor = exp (- length_xz samplePos / hDecayScale u);
          verticalFactor = exp (- ((fst (snd samplePos) + 5.0) / vDecayScale u));
          localHeat = effectiveHeat_uniform u * horizontalFactor * verticalFactor
      in baseTemp u + localHeat * 1000000)"

subsection \<open>Slab intersection with IEEE infinities\<close>

text \<open>
  The slab values of the ray-marching shader: a real number, an infinity or NaN. A
  direction component that is exactly zero makes \<^verbatim>\<open>1.0 / rayDir\<close> infinite; the zero is
  taken as \<open>+0\<close>. Comparison, \<^verbatim>\<open>min\<close> and \<^verbatim>\<open>max\<close> follow the GLSL definitions
  (\<^verbatim>\<open>min(x, y)\<close> is \<^verbatim>\<open>y\<close> if \<^verbatim>\<open>y < x\<close>, else \<^verbatim>\<open>x\<close>; \<^verbatim>\<open>max(x, y)\<close> is \<^verbatim>\<open>y\<close> if
  \<^verbatim>\<open>x < y\<close>, else \<^verbatim>\<open>x\<close>), with every comparison on NaN false.
\<close>

datatype glfloat = Fin real | PInf | NInf | NaN

definition gl_recip :: "real \<Rightarrow> glfloat" where
  "gl_recip d = (if d = 0 then PInf else Fin (1 / d))"

fun gl_scale :: "real \<Rightarrow> glfloat \<Rightarrow> glfloat" where
  "gl_scale a (Fin x) = Fin (a * x)"
| "gl_scale a PInf = (if a > 0 then PInf else if a < 0 then NInf else NaN)"
| "gl_scale a NInf = (if a > 0 then NInf else if a < 0 then PInf else NaN)"
| "gl_scale a NaN = NaN"

fun gl_less :: "glfloat \<Rightarrow> glfloat \<Rightarrow> bool" where
  "gl_less NaN y = False"
| "gl_less x NaN = False"
| "gl_less (Fin x) (Fin y) = (x < y)"
| "gl_less (Fin x) PInf = True"
| "gl_less (Fin x) NInf = False"
| "gl_less PInf y = False"
| "gl_less NInf NInf = False"
| "gl_less NInf y = True"

definition gl_min :: "glfloat \<Rightarrow> glfloat \<Rightarrow> glfloat" where
  "gl_min x y = (if gl_less y x then y else x)"

definition gl_max :: "glfloat \<Rightarrow> glfloat \<Rightarrow> glfloat" where
  "gl_max x y = (if gl_less x y then y else x)"

text \<open>One axis of the slab method: \<^verbatim>\<open>tsmaller\<close> and \<^verbatim>\<open>tbigger\<close> of that component.\<close>

definition slab_axis :: "real \<Rightarrow> real \<Rightarrow> real \<Rightarrow> glfloat \<times> glfloat" where
  "slab_axis halfSize origin dir =
     (let invDir = gl_recip dir;
          t0 = gl_scale (- halfSize - origin) invDir;
          t1 = gl_scale (halfSize - origin) invDir
      in (gl_min t0 t1, gl_max t0 t1))"

text \<open>\<^verbatim>\<open>tmin\<close> and \<^verbatim>\<open>tmax\<close> of the ray from \<^verbatim>\<open>rayOrigin\<close> along \<^verbatim>\<open>rayDir\<close>.\<close>

fun slab_interval :: "vec3 \<Rightarrow> vec3 \<Rightarrow> vec3 \<Rightarrow> glfloat \<times> glfloat" where
  "slab_interval (hx, hy, hz) (ox, oy, oz) (dx, dy, dz) =
     (let (sx, bx) = slab_axis hx ox dx;
          (sy, by) = slab_axis hy oy dy;
          (sz, bz) = slab_axis hz oz dz;
          tmin = gl_max (gl_max sx sy) sz;
          tmax = gl_min (gl_min bx by) bz
      in (tmin, tmax))"

text \<open>The test of the \<^verbatim>\<open>discard\<close>: \<^verbatim>\<open>tmax < 0.0 || tmin > tmax\<close>.\<close>

definition no_intersection :: "glfloat \<times> glfloat \<Rightarrow> bool" where
  "no_intersection ts = (gl_less (snd ts) (Fin 0) \<or> gl_less (snd ts) (fst ts))"

subsection \<open>The ray-marching fragment shader\<close>

text \<open>
  What a fragment ends as: the direction was undefined (\<^verbatim>\<open>normalize\<close> of the zero
  vector), the fragment was discarded, the march would run over an interval with a
  non-finite end (outside the real-number model), or \<^verbatim>\<open>gl_FragColor\<close> was written
  with a colour and an alpha.
\<close>

datatype fragment = UndefinedDirection | Discarded | NonFiniteInterval | FragColor vec3 real

text \<open>
  The body of the \<^verbatim>\<open>for\<close> loop, run over a list of loop indices. The state is the
  running \<^verbatim>\<open>maxColor\<close> together with the positions at which the heat field has been
  sampled so far.
\<close>

fun march :: "uniforms \<Rightarrow> vec3 \<Rightarrow> real \<Rightarrow> real \<Rightarrow> nat list \<Rightarrow> vec3 \<times> vec3 list
    \<Rightarrow> vec3 \<times> vec3 list" where
  "march u rayDir tmin dt [] acc = acc"
| "march u rayDir tmin dt (i # is) (maxColor, visited) =
     (let t = tmin + dt * real i;
          samplePos = vadd (rayOrigin u) (vscale rayDir t);
          sampleColor = colorBands u (sample_temperature u samplePos)
      in march u rayDir tmin dt is (vmax maxColor sampleColor, visited @ [samplePos]))"

text \<open>
  \<^verbatim>\<open>main\<close> of the ray-marching fragment shader: the outcome of the fragment and the
  positions sampled on the way.
\<close>

definition raymarch_main :: "uniforms \<Rightarrow> vec3 \<Rightarrow> fragment \<times> vec3 list" where
  "raymarch_main u vPosition =
     (case normalize_vec3 (vsub vPosition (rayOrigin u)) of
        None \<Rightarrow> (UndefinedDirection, [])
      | Some rayDir \<Rightarrow>
          let ts = slab_interval (boxHalfSize u) (rayOrigin u) rayDir
          in if no_intersection ts then (Discarded, [])
             else
               (case ts of
                  (Fin tmin, Fin tmax) \<Rightarrow>
                    let dt = (tmax - tmin) / 200;
                        (maxColor, visited) =
                           march u rayDir tmin dt [0..<200] ((0, 0, 0), [])
                    in (FragColor maxColor 0.4, visited)
                | _ \<Rightarrow> (NonFiniteInterval, [])))"

text \<open>
  The spec's reading of the march, to compare with the loop: the 200 evenly spaced
  positions over \<open>[tmin, tmax]\<close>, and the per-channel maximum of a list of colours.
\<close>

definition even_samples :: "vec3 \<Rightarrow> vec3 \<Rightarrow> real \<Rightarrow> real \<Rightarrow> vec3 list" where
  "even_samples origin rayDir tmin tmax =
     map (\<lambda>i. vadd origin (vscale rayDir (tmin + (tmax - tmin) / 200 * real i))) [0..<200]"

definition channel_max :: "vec3 list \<Rightarrow> vec3" where
  "channel_max cs = (Max (set (map red cs)), Max (set (map green cs)), Max (set (map blue cs)))"

subsection \<open>IEEE binary64 arithmetic\<close>

text \<open>
  Round to the nearest integer, ties to even.
\<close>

definition rne :: "real \<Rightarrow> int" where
  "rne x =
     (let n = \<lfloor>x\<rfloor>; r = x - of_int n
      in if r < 1 / 2 then n else if 1 / 2 < r then n + 1 else if even n then n else n + 1)"

text \<open>
  The exponent of the unit in the last place of a double near \<open>x\<close>: 52 below the binade
  of \<open>x\<close>, and never below that of the subnormal numbers.
\<close>

definition ulp_exponent :: "real \<Rightarrow> int" where
  "ulp_exponent x = max \<lfloor>log 2 \<bar>x\<bar>\<rfloor> (- 1022) - 52"

text \<open>Round to nearest even with 53 significant bits, the exponent not yet bounded above.\<close>

definition round_double :: "real \<Rightarrow> real" where
  "round_double x =
     (if x = 0 then 0
      else
        let e = ulp_exponent x
        in sgn x * of_int (rne (\<bar>x\<bar> / 2 powr of_int e)) * 2 powr of_int e)"

definition overflow_threshold :: real where
  "overflow_threshold = 2 ^ 1024"

text \<open>
  The double a real result is stored as: the rounded value, or an infinity when the
  rounded value reaches \<open>2\<^sup>1\<^sup>0\<^sup>2\<^sup>4\<close>. Signed zeros are not distinguished.
\<close>

definition d_fl :: "real \<Rightarrow> glfloat" where
  "d_fl x =
     (let r = round_double x
      in if r \<ge> overflow_threshold then PInf
         else if r \<le> - overflow_threshold then NInf else Fin r)"

text \<open>The reals that are finite doubles.\<close>

definition is_double :: "real \<Rightarrow> bool" where
  "is_double x \<longleftrightarrow> d_fl x = Fin x"

fun d_neg :: "glfloat \<Rightarrow> glfloat" where
  "d_neg (Fin x) = Fin (- x)"
| "d_neg PInf = NInf"
| "d_neg NInf = PInf"
| "d_neg NaN = NaN"

fun d_add :: "glfloat \<Rightarrow> glfloat \<Rightarrow> glfloat" where
  "d_add (Fin x) (Fin y) = d_fl (x + y)"
| "d_add NaN y = NaN"
| "d_add x NaN = NaN"
| "d_add PInf NInf = NaN"
| "d_add NInf PInf = NaN"
| "d_add PInf y = PInf"
| "d_add NInf y = NInf"
| "d_add x PInf = PInf"
| "d_add x NInf = NInf"

definition d_sub :: "glfloat \<Rightarrow> glfloat \<Rightarrow> glfloat" where
  "d_sub x y = d_add x (d_neg y)"

fun d_mul :: "glfloat \<Rightarrow> glfloat \<Rightarrow> glfloat" where
  "d_mul (Fin x) (Fin y) = d_fl (x * y)"
| "d_mul (Fin x) y = gl_scale x y"
| "d_mul x (Fin y) = gl_scale y x"
| "d_mul NaN y = NaN"
| "d_mul x NaN = NaN"
| "d_mul PInf PInf = PInf"
| "d_mul PInf NInf = NInf"
| "d_mul NInf PInf = NInf"
| "d_mul NInf NInf = PInf"

fun d_div :: "glfloat \<Rightarrow> glfloat \<Rightarrow> glfloat" where
  "d_div (Fin x) (Fin y) =
     (if y = 0 then (if x > 0 then PInf else if x < 0 then NInf else NaN)
      else d_fl (x / y))"
| "d_div NaN y = NaN"
| "d_div x NaN = NaN"
| "d_div (Fin x) y = Fin 0"
| "d_div PInf (Fin y) = (if y < 0 then NInf else PInf)"
| "d_div NInf (Fin y) = (if y < 0 then PInf else NInf)"
| "d_div x y = NaN"

text \<open>
  \<^verbatim>\<open>Math.exp\<close> and \<^verbatim>\<open>Math.pow(x, 3)\<close>, taken as correctly rounded (ECMAScript leaves
  their last bits to the implementation).
\<close>

fun d_exp :: "glfloat \<Rightarrow> glfloat" where
  "d_exp (Fin x) = d_fl (exp x)"
| "d_exp PInf = PInf"
| "d_exp NInf = Fin 0"
| "d_exp NaN = NaN"

fun d_pow3 :: "glfloat \<Rightarrow> glfloat" where
  "d_pow3 (Fin x) = d_fl (x ^ 3)"
| "d_pow3 PInf = PInf"
| "d_pow3 NInf = NInf"
| "d_pow3 NaN = NaN"

text \<open>\<^verbatim>\<open>Math.max\<close>: NaN if either argument is NaN.\<close>

fun d_max :: "glfloat \<Rightarrow> glfloat \<Rightarrow> glfloat" where
  "d_max NaN y = NaN"
| "d_max x NaN = NaN"
| "d_max x y = (if gl_less x y then y else x)"

text \<open>The comparison \<^verbatim>\<open><=\<close>, false on NaN.\<close>

definition gl_le :: "glfloat \<Rightarrow> glfloat \<Rightarrow> bool" where
  "gl_le x y \<longleftrightarrow> x \<noteq> NaN \<and> y \<noteq> NaN \<and> \<not> gl_less y x"

subsection \<open>The per-frame step in binary64\<close>

text \<open>\<^verbatim>\<open>1 - magnetPower / 5\<close> as the code computes it.\<close>

definition reductionFactor_double :: "glfloat \<Rightarrow> glfloat" where
  "reductionFactor_double magnetPower = d_sub (Fin 1) (d_div magnetPower (Fin 5))"

record doubleState =
  altitude_d :: glfloat
  speed_d :: glfloat
  effectiveHeat_d :: glfloat

text \<open>
  The \<^verbatim>\<open>useFrame\<close> callback of \<^verbatim>\<open>src/App.js\<close> once more, every operation rounded as
  JavaScript rounds it and every decimal literal read as the nearest double.
\<close>

definition Starship_useFrame_double ::
  "bool \<Rightarrow> glfloat \<Rightarrow> doubleState \<Rightarrow> glfloat \<Rightarrow> doubleState" where
  "Starship_useFrame_double isRunning magnetPower simulationState delta =
     (if \<not> isRunning then simulationState
      else if gl_le (altitude_d simulationState) (Fin 0) then simulationState
      else
        let rho = d_mul (d_fl rho0)
                    (d_exp (d_div (d_neg (altitude_d simulationState)) (d_fl scaleHeight)));
            heatFlux = d_mul rho (d_pow3 (speed_d simulationState));
            effHeat = d_mul (d_mul heatFlux (reductionFactor_double magnetPower))
                        (d_fl scalingFactor);
            g = d_fl 9.81;
            dragDeceleration = d_mul (d_mul rho (d_fl 0.81)) (speed_d simulationState);
            computedSpeed = d_sub (speed_d simulationState)
                              (d_mul (d_add g dragDeceleration) delta);
            newSpeed = (if gl_less (Fin 0) (altitude_d simulationState)
                        then d_max computedSpeed (d_fl terminalVelocity) else Fin 0);
            newAltitude = d_max (d_sub (altitude_d simulationState) (d_mul newSpeed delta))
                            (Fin 0)
        in \<lparr>altitude_d = newAltitude, speed_d = newSpeed, effectiveHeat_d = effHeat\<rparr>)"

subsection \<open>Properties of the step\<close>

lemma density_pos: "0 < density h"
  by (simp add: density_def rho0_def)

lemma useFrame_grounded:
  "altitude s \<le> 0 \<Longrightarrow> Starship_useFrame isRunning magnetPower s dt = s"
  by (simp add: Starship_useFrame_def)

lemma run_frames_grounded:
  "altitude s \<le> 0 \<Longrightarrow> run_frames n magnetPower dt s = s"
  by (induction n) (simp_all add: run_frames_def useFrame_grounded)

lemma useFrame_airborne:
  assumes "altitude s > 0"
  shows "Starship_useFrame True magnetPower s dt =
    \<lparr>altitude = max (altitude s -
         max (speed s - (9.81 + density (altitude s) * 0.81 * speed s) * dt) 200 * dt) 0,
     speed = max (speed s - (9.81 + density (altitude s) * 0.81 * speed s) * dt) 200,
     effectiveHeat =
       density (altitude s) * speed s ^ 3 * reductionFactor magnetPower * scalingFactor\<rparr>"
  using assms by (simp add: Starship_useFrame_def Let_def terminalVelocity_def)

text \<open>
  C2. From a state with positive altitude, for every positive time step and every magnet
  power, the speed after one step is at least the terminal velocity of 200 m/s; this
  holds for the linear-drag step and for the quadratic-drag step.
\<close>

theorem speed_at_least_terminal:
  assumes "altitude s > 0" and "dt > 0" and "altitude q > 0"
  shows "speed (Starship_useFrame True magnetPower s dt) \<ge> 200
       \<and> speed (Starship_useFrame_quadratic True magnetPower q dt) \<ge> 200"
  using assms
  by (simp add: Starship_useFrame_def Starship_useFrame_quadratic_def Let_def
      terminalVelocity_def)

theorem speed_at_least_terminal_witness:
  "altitude \<lparr>altitude = 120000, speed = 7222.22, effectiveHeat = 0\<rparr> > 0
   \<and> (1::real) > 0
   \<and> altitude \<lparr>altitude = 120000, speed = 7222.22, effectiveHeat = 0,
        plasmaFluxDensity = 0\<rparr> > 0
   \<and> speed (Starship_useFrame True 0
        \<lparr>altitude = 120000, speed = 7222.22, effectiveHeat = 0\<rparr> 1) \<ge> 200
   \<and> speed (Starship_useFrame_quadratic True 0
        \<lparr>altitude = 120000, speed = 7222.22, effectiveHeat = 0,
         plasmaFluxDensity = 0\<rparr> 1) \<ge> 200"
  using speed_at_least_terminal
    [of "\<lparr>altitude = 120000, speed = 7222.22, effectiveHeat = 0\<rparr>" 1
        "\<lparr>altitude = 120000, speed = 7222.22, effectiveHeat = 0, plasmaFluxDensity = 0\<rparr>" 0]
  by simp

lemma landing_step:
  "altitude (Starship_useFrame True 0
      \<lparr>altitude = 1, speed = 200, effectiveHeat = 0\<rparr> 0.016) = 0
   \<and> speed (Starship_useFrame True 0
      \<lparr>altitude = 1, speed = 200, effectiveHeat = 0\<rparr> 0.016) = 200"
proof -
  have "0 < density 1" by (rule density_pos)
  then have "200 - (9.81 + density 1 * 0.81 * 200) * 0.016 \<le> (200::real)"
    by simp
  then show ?thesis
    by (simp add: useFrame_airborne max_def)
qed

text \<open>
  C1. The early return makes every frame from a grounded state a no-op, so the state keeps
  whatever speed it has; the branch that would set the speed to 0 tests the altitude
  before the step and is never taken. Evaluated from the airborne state
  \<open>(altitude 1, speed 200)\<close> with a 16 ms frame: the landing frame publishes altitude 0
  with speed 200, and three further frames leave the altitude at 0 and the speed at 200,
  not at 0.
\<close>

theorem grounded_speed_not_zeroed:
  "altitude (Starship_useFrame True 0
      \<lparr>altitude = 1, speed = 200, effectiveHeat = 0\<rparr> 0.016) = 0
   \<and> altitude (run_frames 3 0 0.016 (Starship_useFrame True 0
      \<lparr>altitude = 1, speed = 200, effectiveHeat = 0\<rparr> 0.016)) = 0
   \<and> speed (run_frames 3 0 0.016 (Starship_useFrame True 0
      \<lparr>altitude = 1, speed = 200, effectiveHeat = 0\<rparr> 0.016)) = 200"
  using landing_step by (simp add: run_frames_grounded)

text \<open>
  In exact arithmetic the effective heat a step publishes does not increase with the
  magnet power, and the step keeps altitude and speed non-negative.
\<close>

lemma heat_monotone_exact:
  assumes "0 \<le> speed s" and "m1 \<le> m2"
  shows "effectiveHeat (Starship_useFrame True m2 s dt)
           \<le> effectiveHeat (Starship_useFrame True m1 s dt)"
proof (cases "altitude s > 0")
  case False
  then show ?thesis by (simp add: useFrame_grounded)
next
  case True
  have flux: "0 \<le> density (altitude s) * speed s ^ 3"
    using density_pos [of "altitude s"] assms(1) by simp
  have "reductionFactor m2 \<le> reductionFactor m1"
    using assms(2) by (simp add: reductionFactor_def)
  then have "density (altitude s) * speed s ^ 3 * reductionFactor m2
           \<le> density (altitude s) * speed s ^ 3 * reductionFactor m1"
    using flux by (rule mult_left_mono)
  then have "density (altitude s) * speed s ^ 3 * reductionFactor m2 * scalingFactor
           \<le> density (altitude s) * speed s ^ 3 * reductionFactor m1 * scalingFactor"
    by (rule mult_right_mono) (simp add: scalingFactor_def)
  with True show ?thesis by (simp add: useFrame_airborne)
qed

lemma step_preserves_invariant_exact:
  assumes "0 \<le> altitude s" and "0 \<le> speed s" and "0 \<le> dt"
  shows "0 \<le> altitude (Starship_useFrame True magnetPower s dt)
       \<and> 0 \<le> speed (Starship_useFrame True magnetPower s dt)
       \<and> altitude (Starship_useFrame True magnetPower s dt)
           = max (altitude s - speed (Starship_useFrame True magnetPower s dt) * dt) 0"
proof (cases "altitude s > 0")
  case True
  then show ?thesis by (simp add: useFrame_airborne)
next
  case False
  with assms(1) have z: "altitude s = 0" by simp
  have "0 \<le> speed s * dt" using assms(2,3) by simp
  with z assms(2) show ?thesis by (simp add: useFrame_grounded)
qed

text \<open>
  C10. From a state with positive altitude, the effective heat a step publishes is
  computed from the altitude and the speed before the step:
  \<open>1.225 * exp (- altitude / 8400) * speed\<^sup>3 * (1 - magnetPower / 5) * 1.2e-11\<close>, in the
  linear-drag step and in the quadratic-drag step, while the altitude published with it
  is the updated one; the heat of a snapshot therefore lags its altitude and speed by
  one step.
\<close>

theorem heat_from_pre_step_state:
  assumes "altitude s > 0" and "altitude q > 0"
  shows "effectiveHeat (Starship_useFrame True magnetPower s dt)
           = 1.225 * exp (- altitude s / 8400) * speed s ^ 3 * (1 - magnetPower / 5)
               * 0.000000000012
       \<and> effectiveHeat (Starship_useFrame_quadratic True magnetPower q dt)
           = 1.225 * exp (- altitude q / 8400) * speed q ^ 3 * (1 - magnetPower / 5)
               * 0.000000000012
       \<and> altitude (Starship_useFrame True magnetPower s dt)
           = max (altitude s - speed (Starship_useFrame True magnetPower s dt) * dt) 0
       \<and> altitude (Starship_useFrame_quadratic True magnetPower q dt)
           = max (altitude q
               - speed (Starship_useFrame_quadratic True magnetPower q dt) * dt) 0"
  using assms
  by (simp add: Starship_useFrame_def Starship_useFrame_quadratic_def Let_def density_def
      reductionFactor_def rho0_def scaleHeight_def scalingFactor_def)

theorem heat_from_pre_step_state_witness:
  "altitude \<lparr>altitude = 8400, speed = 1000, effectiveHeat = 0\<rparr> > 0
   \<and> altitude \<lparr>altitude = 8400, speed = 1000, effectiveHeat = 0,
        plasmaFluxDensity = 0\<rparr> > 0
   \<and> effectiveHeat (Starship_useFrame True 0
        \<lparr>altitude = 8400, speed = 1000, effectiveHeat = 0\<rparr> 1)
      = 1.225 * exp (- 1) * 1000 ^ 3 * 0.000000000012
   \<and> effectiveHeat (Starship_useFrame_quadratic True 0
        \<lparr>altitude = 8400, speed = 1000, effectiveHeat = 0, plasmaFluxDensity = 0\<rparr> 1)
      = 1.225 * exp (- 1) * 1000 ^ 3 * 0.000000000012"
  using heat_from_pre_step_state
    [of "\<lparr>altitude = 8400, speed = 1000, effectiveHeat = 0\<rparr>"
        "\<lparr>altitude = 8400, speed = 1000, effectiveHeat = 0, plasmaFluxDensity = 0\<rparr>" 0 1]
  by simp

subsection \<open>Properties of binary64 rounding\<close>

lemma rne_of_int [simp]: "rne (of_int n) = n"
  by (simp add: rne_def)

lemma rne_bounds: "of_int (rne x) \<le> x + 1 / 2 \<and> x - 1 / 2 \<le> of_int (rne x)"
  unfolding rne_def Let_def by (auto; linarith)

lemma rne_floor_le: "\<lfloor>x\<rfloor> \<le> rne x" and rne_le_floor: "rne x \<le> \<lfloor>x\<rfloor> + 1"
  by (simp_all add: rne_def Let_def)

lemma rne_mono:
  assumes "x \<le> y"
  shows "rne x \<le> rne y"
proof (cases "\<lfloor>x\<rfloor> = \<lfloor>y\<rfloor>")
  case True
  with assms have "x - of_int \<lfloor>x\<rfloor> \<le> y - of_int \<lfloor>y\<rfloor>" by simp
  with True show ?thesis
    by (auto simp add: rne_def Let_def)
next
  case False
  with assms have "\<lfloor>x\<rfloor> < \<lfloor>y\<rfloor>"
    by (simp add: floor_mono order.not_eq_order_implies_strict)
  then have "\<lfloor>x\<rfloor> + 1 \<le> \<lfloor>y\<rfloor>" by simp
  with rne_le_floor [of x] rne_floor_le [of y] show ?thesis by linarith
qed

lemma rne_zero [simp]: "rne 0 = 0"
  by (simp add: rne_def)

lemma rne_nonneg: "0 \<le> x \<Longrightarrow> 0 \<le> rne x"
  using rne_mono [of 0 x] by simp

lemma rne_le_int: "x \<le> of_int n \<Longrightarrow> rne x \<le> n"
  using rne_mono [of x "of_int n"] by simp

lemma rne_ge_int: "of_int n \<le> x \<Longrightarrow> n \<le> rne x"
  using rne_mono [of "of_int n" x] by simp

lemma rne_lt_half: "x < of_int n + 1 / 2 \<Longrightarrow> rne x \<le> n"
  using rne_bounds [of x] by linarith

lemma round_double_pos:
  "0 < x \<Longrightarrow> round_double x =
     of_int (rne (x / 2 powr of_int (ulp_exponent x))) * 2 powr of_int (ulp_exponent x)"
  by (simp add: round_double_def Let_def)

lemma round_double_uminus: "round_double (- x) = - round_double x"
  by (simp add: round_double_def Let_def ulp_exponent_def sgn_minus)

lemma round_double_zero [simp]: "round_double 0 = 0"
  by (simp add: round_double_def)

lemma ulp_exponent_mono:
  assumes "0 < x" and "x \<le> y"
  shows "ulp_exponent x \<le> ulp_exponent y"
proof -
  have "log 2 x \<le> log 2 y" using assms by simp
  then have "\<lfloor>log 2 x\<rfloor> \<le> \<lfloor>log 2 y\<rfloor>" by (rule floor_mono)
  with assms show ?thesis by (simp add: ulp_exponent_def)
qed

lemma ulp_exponent_ge: "- 1074 \<le> ulp_exponent x"
  by (simp add: ulp_exponent_def)

lemma below_next_binade:
  assumes "0 < x"
  shows "x < 2 powr of_int (ulp_exponent x + 53)"
proof -
  have "\<lfloor>log 2 x\<rfloor> \<le> ulp_exponent x + 52"
    using assms by (simp add: ulp_exponent_def)
  then have "log 2 x < of_int (ulp_exponent x + 53)"
    by (simp add: floor_le_iff)
  then show ?thesis
    using assms by (simp add: log_less_iff)
qed

lemma above_binade:
  assumes "0 < x" and "- 1074 < ulp_exponent x"
  shows "2 powr of_int (ulp_exponent x + 52) \<le> x"
proof -
  from assms(2) have "ulp_exponent x + 52 = \<lfloor>log 2 x\<rfloor>"
    using assms(1) by (simp add: ulp_exponent_def max_def split: if_splits)
  then have "of_int (ulp_exponent x + 52) \<le> log 2 x"
    by simp
  then show ?thesis
    using assms(1) by (simp add: le_log_iff)
qed

lemma pow2_shift: "(2::real) powr of_int (e + int k) = 2 ^ k * 2 powr of_int e"
  by (simp add: powr_add powr_realpow)

lemma pow2_shift_53: "(2::real) powr of_int (e + 53) = 2 ^ 53 * 2 powr of_int e"
  using pow2_shift [of e 53] by simp

lemma pow2_shift_52: "(2::real) powr of_int (e + 52) = 2 ^ 52 * 2 powr of_int e"
  using pow2_shift [of e 52] by simp

lemma round_double_upper:
  assumes "0 < x"
  shows "round_double x \<le> 2 powr of_int (ulp_exponent x + 53)"
proof -
  define p :: real where "p = 2 powr of_int (ulp_exponent x)"
  have ppos: "0 < p" by (simp add: p_def)
  have "x < 2 ^ 53 * p"
    using below_next_binade [OF assms] by (simp only: pow2_shift_53 p_def)
  then have "x / p < of_int (2 ^ 53)"
    using ppos by (simp add: pos_divide_less_eq)
  then have "rne (x / p) \<le> 2 ^ 53"
    by (intro rne_le_int) simp
  then have "real_of_int (rne (x / p)) \<le> real_of_int (2 ^ 53)"
    by (simp only: of_int_le_iff)
  then have "real_of_int (rne (x / p)) * p \<le> real_of_int (2 ^ 53) * p"
    using ppos by (intro mult_right_mono) simp_all
  then have "round_double x \<le> 2 ^ 53 * p"
    using assms by (simp add: round_double_pos p_def)
  then show ?thesis
    by (simp only: pow2_shift_53 p_def)
qed

lemma round_double_lower:
  assumes "0 < x" and "- 1074 < ulp_exponent x"
  shows "2 powr of_int (ulp_exponent x + 52) \<le> round_double x"
proof -
  define p :: real where "p = 2 powr of_int (ulp_exponent x)"
  have ppos: "0 < p" by (simp add: p_def)
  have "2 ^ 52 * p \<le> x"
    using above_binade [OF assms] by (simp only: pow2_shift_52 p_def)
  then have "of_int (2 ^ 52) \<le> x / p"
    using ppos by (simp add: pos_le_divide_eq)
  then have "2 ^ 52 \<le> rne (x / p)"
    by (rule rne_ge_int)
  then have "real_of_int (2 ^ 52) \<le> real_of_int (rne (x / p))"
    by (simp only: of_int_le_iff)
  then have "real_of_int (2 ^ 52) * p \<le> real_of_int (rne (x / p)) * p"
    using ppos by (intro mult_right_mono) simp_all
  then have "2 ^ 52 * p \<le> round_double x"
    using assms(1) by (simp add: round_double_pos p_def)
  then show ?thesis
    by (simp only: pow2_shift_52 p_def)
qed

lemma round_double_mono_pos:
  assumes "0 < x" and "x \<le> y"
  shows "round_double x \<le> round_double y"
proof -
  have ypos: "0 < y" using assms by simp
  have le: "ulp_exponent x \<le> ulp_exponent y"
    using assms by (rule ulp_exponent_mono)
  show ?thesis
  proof (cases "ulp_exponent x = ulp_exponent y")
    case True
    let ?p = "2 powr of_int (ulp_exponent y) :: real"
    have "x / ?p \<le> y / ?p"
      using assms(2) by (simp add: divide_right_mono)
    then have "rne (x / ?p) \<le> rne (y / ?p)" by (rule rne_mono)
    then have "real_of_int (rne (x / ?p)) * ?p \<le> real_of_int (rne (y / ?p)) * ?p"
      by (intro mult_right_mono) simp_all
    with True assms(1) ypos show ?thesis by (simp add: round_double_pos)
  next
    case False
    with le have lt: "ulp_exponent x < ulp_exponent y" by simp
    with ulp_exponent_ge [of x] have "- 1074 < ulp_exponent y" by linarith
    from round_double_lower [OF ypos this]
    have low: "2 powr of_int (ulp_exponent y + 52) \<le> round_double y" .
    from lt have "ulp_exponent x + 53 \<le> ulp_exponent y + 52" by simp
    then have "(2::real) powr of_int (ulp_exponent x + 53) \<le> 2 powr of_int (ulp_exponent y + 52)"
      by (simp only: powr_le_cancel_iff of_int_le_iff) 
    with round_double_upper [OF assms(1)] low show ?thesis by linarith
  qed
qed

lemma round_double_nonneg: "0 \<le> x \<Longrightarrow> 0 \<le> round_double x"
  by (cases "x = 0") (simp_all add: round_double_pos rne_nonneg)

lemma round_double_mono:
  assumes "x \<le> y"
  shows "round_double x \<le> round_double y"
proof -
  consider "0 < x" | "x \<le> 0" "0 \<le> y" | "y < 0" by linarith
  then show ?thesis
  proof cases
    case 1
    then show ?thesis using assms by (rule round_double_mono_pos)
  next
    case 2
    have "round_double x = - round_double (- x)"
      by (simp add: round_double_uminus)
    moreover have "0 \<le> round_double (- x)"
      using 2(1) by (intro round_double_nonneg) simp
    ultimately show ?thesis
      using round_double_nonneg [OF 2(2)] by linarith
  next
    case 3
    then have "round_double (- y) \<le> round_double (- x)"
      using assms by (intro round_double_mono_pos) simp_all
    then show ?thesis by (simp add: round_double_uminus)
  qed
qed

text \<open>Every \<open>m * 2^e\<close> with \<open>|m| < 2^53\<close> and \<open>e \<ge> -1074\<close> is rounded to itself.\<close>

lemma round_double_dyadic:
  assumes "\<bar>m\<bar> < 2 ^ 53" and "- 1074 \<le> e"
  shows "round_double (of_int m * 2 powr of_int e) = of_int m * 2 powr of_int e"
proof (cases "m = 0")
  case True
  then show ?thesis by simp
next
  case False
  define x :: real where "x = of_int m * 2 powr of_int e"
  define E where "E = ulp_exponent x"
  have xnz: "x \<noteq> 0" using False by (simp add: x_def)
  have absx: "\<bar>x\<bar> = of_int \<bar>m\<bar> * 2 powr of_int e"
    by (simp add: x_def abs_mult)
  have "real_of_int \<bar>m\<bar> < 2 ^ 53"
    using assms(1) by (simp add: of_int_less_iff [symmetric] del: of_int_less_iff)
  then have "\<bar>x\<bar> < 2 ^ 53 * 2 powr of_int e"
    unfolding absx by (intro mult_strict_right_mono) simp_all
  then have "\<bar>x\<bar> < 2 powr of_int (e + 53)"
    by (simp only: pow2_shift_53)
  then have "log 2 \<bar>x\<bar> < of_int (e + 53)"
    using xnz by (simp add: log_less_iff)
  then have "\<lfloor>log 2 \<bar>x\<bar>\<rfloor> < e + 53"
    by (simp add: floor_less_iff)
  with assms(2) have le: "E \<le> e"
    by (simp add: E_def ulp_exponent_def)
  define k where "k = nat (e - E)"
  have e: "e = E + int k"
    using le by (simp add: k_def)
  have pe: "(2::real) powr of_int e = 2 ^ k * 2 powr of_int E"
    unfolding e by (rule pow2_shift)
  have quot: "\<bar>x\<bar> / 2 powr of_int E = of_int (\<bar>m\<bar> * 2 ^ k)"
    unfolding absx pe by simp
  have "round_double x = sgn x * of_int (\<bar>m\<bar> * 2 ^ k) * 2 powr of_int E"
    using xnz unfolding round_double_def Let_def E_def [symmetric] quot rne_of_int by simp
  also have "\<dots> = sgn x * (of_int \<bar>m\<bar> * (2 ^ k * 2 powr of_int E))"
    by simp
  also have "\<dots> = sgn x * \<bar>x\<bar>"
    unfolding absx pe ..
  also have "\<dots> = x"
    by (simp only: sgn_mult_abs)
  finally show ?thesis
    unfolding x_def .
qed

lemma ulp_exponent_eq:
  assumes "2 powr of_int k \<le> \<bar>x\<bar>" and "\<bar>x\<bar> < 2 powr of_int (k + 1)" and "- 1022 \<le> k"
  shows "ulp_exponent x = k - 52"
proof -
  have "0 < (2::real) powr of_int k" by simp
  with assms(1) have pos: "0 < \<bar>x\<bar>" by linarith
  have "\<lfloor>log 2 \<bar>x\<bar>\<rfloor> = k"
    using assms(1,2) pos by (subst floor_log_eq_powr_iff) simp_all
  with assms(3) show ?thesis by (simp add: ulp_exponent_def)
qed

lemma round_double_four_fifths:
  "round_double (4 / 5) = 7205759403792794 / 2 ^ 53"
proof -
  have e: "ulp_exponent (4 / 5) = - 53"
    using ulp_exponent_eq [of "- 1" "4 / 5"] by (simp add: powr_minus)
  have p: "(2::real) powr - 53 = 1 / 2 ^ 53"
    by (simp add: powr_minus inverse_eq_divide)
  show ?thesis
    by (simp add: round_double_def Let_def e p rne_def)
qed

lemma round_double_int:
  assumes "\<bar>m\<bar> < 2 ^ 53"
  shows "round_double (of_int m) = of_int m"
  using round_double_dyadic [OF assms, of 0] by simp

lemma round_double_ratio:
  assumes "\<bar>m\<bar> < 2 ^ 53" and "k \<le> 1074"
  shows "round_double (of_int m / 2 ^ k) = of_int m / 2 ^ k"
proof -
  have "(2::real) powr of_int (- int k) = 1 / 2 ^ k"
    by (simp add: powr_minus powr_realpow inverse_eq_divide)
  with round_double_dyadic [OF assms(1), of "- int k"] assms(2) show ?thesis
    by simp
qed

lemma round_double_one [simp]: "round_double 1 = 1"
  using round_double_int [of 1] by simp

lemma round_double_numeral:
  "\<bar>numeral n :: int\<bar> < 2 ^ 53 \<Longrightarrow> round_double (numeral n) = numeral n"
  using round_double_int [of "numeral n"] by simp

lemma small_below_overflow:
  assumes "\<bar>x\<bar> \<le> 2 ^ 64"
  shows "\<bar>x\<bar> < overflow_threshold"
proof -
  have "(2::real) ^ 64 < 2 ^ 1024"
    by (rule power_strict_increasing) simp_all
  with assms show ?thesis
    unfolding overflow_threshold_def by (rule le_less_trans)
qed

lemma d_fl_finite:
  assumes "\<bar>round_double x\<bar> < overflow_threshold"
  shows "d_fl x = Fin (round_double x)"
  using assms by (simp add: d_fl_def Let_def abs_less_iff not_le)

lemma d_fl_exact:
  assumes "round_double x = x" and "\<bar>x\<bar> < overflow_threshold"
  shows "d_fl x = Fin x"
  using d_fl_finite [of x] assms by simp

lemma d_fl_range:
  assumes "lo \<le> x" and "x \<le> hi"
    and "round_double lo = lo" and "round_double hi = hi"
    and "\<bar>lo\<bar> < overflow_threshold" and "\<bar>hi\<bar> < overflow_threshold"
  shows "\<exists>r. d_fl x = Fin r \<and> lo \<le> r \<and> r \<le> hi"
proof -
  have "lo \<le> round_double x" "round_double x \<le> hi"
    using round_double_mono [OF assms(1)] round_double_mono [OF assms(2)] assms(3,4)
    by simp_all
  moreover from this assms(5,6) have "\<bar>round_double x\<bar> < overflow_threshold"
    by (simp add: abs_less_iff)
  ultimately show ?thesis
    by (simp add: d_fl_finite)
qed

lemma d_fl_range_small:
  assumes "lo \<le> x" and "x \<le> hi"
    and "round_double lo = lo" and "round_double hi = hi"
    and "\<bar>lo\<bar> \<le> 2 ^ 64" and "\<bar>hi\<bar> \<le> 2 ^ 64"
  shows "\<exists>r. d_fl x = Fin r \<and> lo \<le> r \<and> r \<le> hi"
  using assms(1-4) small_below_overflow [OF assms(5)] small_below_overflow [OF assms(6)]
  by (rule d_fl_range)

lemma reduction_factor_double_at_4:
  "reductionFactor_double (Fin 4) = Fin (1801439850948198 / 2 ^ 53)"
proof -
  have "d_fl (4 / 5) = Fin (round_double (4 / 5))"
    by (rule d_fl_finite) (simp only: round_double_four_fifths, rule small_below_overflow, simp)
  then have q: "d_fl (4 / 5) = Fin (7205759403792794 / 2 ^ 53)"
    by (simp only: round_double_four_fifths)
  have r: "round_double (of_int 900719925474099 / 2 ^ 52) = of_int 900719925474099 / 2 ^ 52"
    by (rule round_double_ratio) simp_all
  have v: "(1 + - (7205759403792794 / 2 ^ 53) :: real) = of_int 900719925474099 / 2 ^ 52"
    by simp
  have w: "(1801439850948198 / 2 ^ 53 :: real) = of_int 900719925474099 / 2 ^ 52"
    by simp
  have "d_fl (of_int 900719925474099 / 2 ^ 52) = Fin (of_int 900719925474099 / 2 ^ 52)"
    using r by (rule d_fl_exact) (rule small_below_overflow, simp)
  then show ?thesis
    unfolding reductionFactor_double_def d_sub_def w
    by (simp only: d_div.simps d_neg.simps d_add.simps q v) simp
qed

lemma d_sub_Fin [simp]: "d_sub (Fin a) (Fin b) = d_fl (a - b)"
  by (simp add: d_sub_def)

lemma reduction_factor_double_range:
  assumes "0 \<le> m" and "m \<le> 4"
  shows "\<exists>r. reductionFactor_double (Fin m) = Fin r
           \<and> 1801439850948198 / 2 ^ 53 \<le> r \<and> r \<le> 1"
proof -
  define c :: real where "c = of_int 3602879701896397 / 2 ^ 52"
  define l :: real where "l = of_int 900719925474099 / 2 ^ 52"
  have c: "round_double c = c" unfolding c_def by (rule round_double_ratio) simp_all
  have l: "round_double l = l" unfolding l_def by (rule round_double_ratio) simp_all
  have cl: "1 - c = l" by (simp add: c_def l_def)
  have zs: "\<bar>0::real\<bar> < overflow_threshold" and os: "\<bar>1::real\<bar> < overflow_threshold"
    and cs: "\<bar>c\<bar> < overflow_threshold" and ls: "\<bar>l\<bar> < overflow_threshold"
    by (rule small_below_overflow, simp add: c_def l_def)+
  have "0 \<le> m / 5" "m / 5 \<le> c"
    using assms by (simp_all add: c_def)
  from d_fl_range [OF this round_double_zero c zs cs]
  obtain q where q: "d_fl (m / 5) = Fin q" "0 \<le> q" "q \<le> c"
    by blast
  have "l \<le> 1 - q" "1 - q \<le> 1"
    using q(2,3) cl by simp_all
  from d_fl_range [OF this l round_double_one ls os]
  obtain r where r: "d_fl (1 - q) = Fin r" "l \<le> r" "r \<le> 1"
    by blast
  have "reductionFactor_double (Fin m) = Fin r"
    by (simp add: reductionFactor_double_def q(1) r(1))
  moreover have "1801439850948198 / 2 ^ 53 = l"
    by (simp add: l_def)
  ultimately show ?thesis
    using r(2,3) by simp
qed

lemma overflow_threshold_pos: "0 < overflow_threshold"
  by (simp add: overflow_threshold_def)

lemma is_doubleD:
  assumes "is_double x"
  shows "round_double x = x" and "\<bar>x\<bar> < overflow_threshold"
  using assms
  by (auto simp add: is_double_def d_fl_def Let_def abs_less_iff not_le split: if_splits)

lemma d_fl_zero [simp]: "d_fl 0 = Fin 0"
  using overflow_threshold_pos by (simp add: d_fl_def)

lemma d_fl_numeral:
  assumes "(numeral n :: int) < 2 ^ 53"
  shows "d_fl (numeral n) = Fin (numeral n)"
proof (rule d_fl_exact)
  show "round_double (numeral n) = numeral n"
    using assms by (intro round_double_numeral) simp
  have "real_of_int (numeral n) \<le> real_of_int (2 ^ 53)"
    using assms by (simp only: of_int_le_iff less_imp_le)
  then have "\<bar>numeral n :: real\<bar> \<le> 2 ^ 53" by simp
  also have "(2::real) ^ 53 \<le> 2 ^ 64" by (rule power_increasing) simp_all
  finally show "\<bar>numeral n :: real\<bar> < overflow_threshold"
    by (rule small_below_overflow)
qed

lemma d_fl_nonneg:
  assumes "0 \<le> x"
  shows "d_fl x = PInf \<or> (\<exists>w. d_fl x = Fin w \<and> 0 \<le> w)"
  using round_double_nonneg [OF assms] overflow_threshold_pos
  by (simp add: d_fl_def Let_def)

lemma d_fl_upper:
  assumes "x \<le> hi" and "round_double hi = hi" and "hi < overflow_threshold"
  shows "d_fl x = NInf \<or> (\<exists>r. d_fl x = Fin r \<and> r \<le> hi)"
proof -
  have "round_double x \<le> hi"
    using round_double_mono [OF assms(1)] assms(2) by simp
  with assms(3) show ?thesis
    by (simp add: d_fl_def Let_def)
qed

lemma round_double_tiny:
  assumes "0 < x" and "x < 2 powr (- 1075)"
  shows "round_double x = 0"
proof -
  have "log 2 x < - 1075"
    using assms by (simp add: log_less_iff)
  then have "\<lfloor>log 2 x\<rfloor> < - 1075"
    by (simp add: floor_less_iff)
  then have e: "ulp_exponent x = - 1074"
    using assms(1) by (simp add: ulp_exponent_def)
  have "(2::real) powr (- 1075) = 2 powr (- 1074) * (1 / 2)"
    by (simp add: powr_minus inverse_eq_divide)
  with assms(2) have "x / 2 powr (- 1074) < 1 / 2"
    by (simp add: pos_divide_less_eq mult.commute)
  moreover have "0 \<le> x / 2 powr (- 1074)"
    using assms(1) by simp
  ultimately have q: "0 \<le> x / 2 powr (- 1074)" "x / 2 powr (- 1074) < 1 / 2"
    by simp_all
  then have "real_of_int 0 \<le> x / 2 powr (- 1074)"
    and "x / 2 powr (- 1074) < real_of_int 0 + 1"
    by linarith+
  then have "\<lfloor>x / 2 powr (- 1074)\<rfloor> = 0"
    by (simp only: floor_eq_iff)
  with q(2) have "rne (x / 2 powr (- 1074)) = 0"
    unfolding rne_def Let_def by simp
  then show ?thesis
    using assms(1) by (simp add: round_double_pos e)
qed

lemma exp_ge_two_power: "2 ^ n \<le> exp (real n)"
proof -
  have "(2::real) \<le> exp 1"
    using exp_ge_add_one_self [of 1] by simp
  then have "(2::real) ^ n \<le> exp 1 ^ n"
    by (intro power_mono) simp_all
  also have "\<dots> = exp (real n)"
    using exp_of_nat_mult [of n "1::real"] by simp
  finally show ?thesis .
qed

lemma exp_underflows:
  assumes "y \<le> - 1190"
  shows "d_fl (exp y) = Fin 0"
proof -
  have "exp y \<le> exp (- real 1190)"
    using assms by simp
  also have "\<dots> = inverse (exp (real 1190))"
    by (rule exp_minus)
  also have "\<dots> \<le> inverse (2 ^ 1190)"
    using exp_ge_two_power [of 1190] by (intro le_imp_inverse_le) simp_all
  also have "\<dots> = 2 powr (- 1190)"
    by (simp add: powr_minus)
  also have "\<dots> < 2 powr (- 1075)"
    by simp
  finally have "exp y < 2 powr (- 1075)" .
  with exp_gt_zero have "round_double (exp y) = 0"
    by (rule round_double_tiny)
  then show ?thesis
    using overflow_threshold_pos by (simp add: d_fl_def)
qed

lemma d_mul_NaN [simp]: "d_mul NaN y = NaN"
  by (cases y) simp_all

lemma pow3_overflows: "d_pow3 (Fin (2 ^ 342)) = PInf"
proof -
  have "round_double (of_int 1 * 2 powr of_int 1026) = of_int 1 * 2 powr of_int 1026"
    by (rule round_double_dyadic) simp_all
  moreover have "of_int 1 * 2 powr of_int 1026 = (2 ^ 1026 :: real)"
    using powr_realpow [of 2 1026] by simp
  ultimately have "round_double (2 ^ 1026) = 2 ^ 1026"
    by simp
  moreover have "(2::real) ^ 1024 \<le> 2 ^ 1026"
    by (rule power_increasing) simp_all
  moreover have "((2::real) ^ 342) ^ 3 = 2 ^ 1026"
    by (simp add: power_mult [symmetric])
  ultimately show ?thesis
    by (simp only: d_pow3.simps d_fl_def overflow_threshold_def Let_def) simp
qed

lemma d_fl_terminalVelocity: "d_fl terminalVelocity = Fin 200"
  by (simp add: terminalVelocity_def d_fl_numeral)

lemma d_fl_scaleHeight: "d_fl scaleHeight = Fin 8400"
  by (simp add: scaleHeight_def d_fl_numeral)

lemma d_fl_neg_numeral:
  assumes "(numeral n :: int) < 2 ^ 53"
  shows "d_fl (- numeral n) = Fin (- numeral n)"
proof (rule d_fl_exact)
  show "round_double (- numeral n) = - numeral n"
    using assms by (simp add: round_double_uminus round_double_numeral)
  from d_fl_numeral [OF assms] have "is_double (numeral n)"
    by (simp add: is_double_def)
  from is_doubleD(2) [OF this] show "\<bar>- numeral n :: real\<bar> < overflow_threshold"
    by simp
qed

lemma d_fl_rho0: "\<exists>r. d_fl rho0 = Fin r \<and> 0 \<le> r \<and> r \<le> 157 / 128"
proof -
  have hi: "round_double (of_int 157 / 2 ^ 7) = of_int 157 / 2 ^ 7"
    by (rule round_double_ratio) simp_all
  have "0 \<le> rho0" "rho0 \<le> of_int 157 / 2 ^ 7"
    by (simp_all add: rho0_def)
  from d_fl_range_small [OF this round_double_zero hi]
  show ?thesis
    by simp
qed

lemma d_mul_Fin: "d_mul (Fin x) (Fin y) = d_fl (x * y)"
  by simp

lemma density_double:
  assumes "is_double a" and "0 \<le> a"
  shows "\<exists>\<rho>. d_mul (d_fl rho0) (d_exp (d_div (d_neg (Fin a)) (d_fl scaleHeight))) = Fin \<rho>
           \<and> 0 \<le> \<rho> \<and> \<rho> \<le> 157 / 128"
proof -
  have na: "round_double (- a) = - a" "\<bar>- a\<bar> < overflow_threshold"
    using is_doubleD [OF assms(1)] by (simp_all add: round_double_uminus)
  have "- a \<le> - a / 8400" "- a / 8400 \<le> 0"
    using assms(2) by simp_all
  from d_fl_range [OF this na(1) round_double_zero na(2)] overflow_threshold_pos
  obtain y where y: "d_fl (- a / 8400) = Fin y" "y \<le> 0"
    by auto
  have arg: "d_div (d_neg (Fin a)) (d_fl scaleHeight) = Fin y"
    using y(1) by (simp add: d_fl_scaleHeight)
  have "0 \<le> exp y" "exp y \<le> 1"
    using y(2) by simp_all
  from d_fl_range_small [OF this round_double_zero round_double_one]
  obtain e where e: "d_fl (exp y) = Fin e" "0 \<le> e" "e \<le> 1"
    by auto
  obtain r where r: "d_fl rho0 = Fin r" "0 \<le> r" "r \<le> 157 / 128"
    using d_fl_rho0 by blast
  have hi: "round_double (of_int 157 / 2 ^ 7) = of_int 157 / 2 ^ 7"
    by (rule round_double_ratio) simp_all
  have "r * e \<le> r * 1"
    using e(3) r(2) by (intro mult_left_mono)
  then have "0 \<le> r * e" "r * e \<le> of_int 157 / 2 ^ 7"
    using r(2,3) e(2) by simp_all
  from d_fl_range_small [OF this round_double_zero hi]
  obtain \<rho> where "d_fl (r * e) = Fin \<rho>" "0 \<le> \<rho>" "\<rho> \<le> 157 / 128"
    by auto
  then show ?thesis
    by (simp only: arg d_exp.simps e(1) r(1) d_mul_Fin) blast
qed

lemma clamped_decrease:
  assumes "is_double x" and "0 \<le> p"
  shows "\<exists>r. d_max (d_sub (Fin x) (d_fl p)) (Fin f) = Fin r \<and> f \<le> r \<and> r \<le> max x f"
proof -
  note x = is_doubleD [OF assms(1)]
  from d_fl_nonneg [OF assms(2)] show ?thesis
  proof
    assume "d_fl p = PInf"
    then show ?thesis by (simp add: d_sub_def)
  next
    assume "\<exists>w. d_fl p = Fin w \<and> 0 \<le> w"
    then obtain w where w: "d_fl p = Fin w" "0 \<le> w" by blast
    have "x - w \<le> x" using w(2) by simp
    moreover have "x < overflow_threshold" using x(2) by simp
    ultimately have "d_fl (x - w) = NInf \<or> (\<exists>r. d_fl (x - w) = Fin r \<and> r \<le> x)"
      using x(1) by (intro d_fl_upper)
    then show ?thesis
      by (auto simp add: w(1))
  qed
qed

lemma drag_double:
  assumes "0 \<le> \<rho>" and "\<rho> \<le> 157 / 128" and "is_double s" and "0 \<le> s"
  shows "\<exists>gd. d_add (d_fl 9.81) (d_mul (d_mul (Fin \<rho>) (d_fl 0.81)) (Fin s)) = Fin gd \<and> 0 \<le> gd"
proof -
  define D :: real where "D = of_int 2041 * 2 powr of_int 1013"
  define D' :: real where "D' = of_int 2042 * 2 powr of_int 1013"
  have thr: "overflow_threshold = 2048 * 2 powr of_int 1013"
    using pow2_shift [of 1013 11] by (simp add: overflow_threshold_def powr_realpow)
  have p_ge: "(10::real) \<le> 2 powr of_int 1013"
  proof -
    have "(10::real) \<le> 2 powr of_int 4" by simp
    also have "\<dots> \<le> 2 powr of_int 1013"
      by (simp only: powr_le_cancel_iff of_int_le_iff)
    finally show ?thesis .
  qed
  have D: "round_double D = D" and D': "round_double D' = D'"
    unfolding D_def D'_def by (rule round_double_dyadic; simp)+
  have Ds: "\<bar>D\<bar> < overflow_threshold" and D's: "\<bar>D'\<bar> < overflow_threshold"
    unfolding thr D_def D'_def by simp_all
  have zs: "\<bar>0::real\<bar> < overflow_threshold"
    using overflow_threshold_pos by simp
  note sd = is_doubleD [OF assms(3)]
  have c_hi: "round_double (of_int 13 / 2 ^ 4) = of_int 13 / 2 ^ 4"
    by (rule round_double_ratio) simp_all
  have "(0::real) \<le> 0.81" "(0.81::real) \<le> of_int 13 / 2 ^ 4"
    by simp_all
  from d_fl_range_small [OF this round_double_zero c_hi]
  obtain c where c: "d_fl 0.81 = Fin c" "0 \<le> c" "c \<le> 13 / 16"
    by auto
  have x_hi: "round_double (of_int 2041 / 2 ^ 11) = of_int 2041 / 2 ^ 11"
    by (rule round_double_ratio) simp_all
  have "\<rho> * c \<le> (157 / 128) * (13 / 16)"
    using assms(1,2) c(2,3) by (intro mult_mono) simp_all
  then have "0 \<le> \<rho> * c" "\<rho> * c \<le> of_int 2041 / 2 ^ 11"
    using assms(1) c(2) by simp_all
  from d_fl_range_small [OF this round_double_zero x_hi]
  obtain x1 where x1: "d_fl (\<rho> * c) = Fin x1" "0 \<le> x1" "x1 \<le> 2041 / 2048"
    by auto
  have "s \<le> 2048 * 2 powr of_int 1013"
    using sd(2) unfolding thr by simp
  with x1(2,3) assms(4) have "x1 * s \<le> (2041 / 2048) * (2048 * 2 powr of_int 1013)"
    by (intro mult_mono) simp_all
  then have "0 \<le> x1 * s" "x1 * s \<le> D"
    using x1(2) assms(4) by (simp_all add: D_def)
  from d_fl_range [OF this round_double_zero D zs Ds]
  obtain dr where dr: "d_fl (x1 * s) = Fin dr" "0 \<le> dr" "dr \<le> D"
    by auto
  have g_hi: "round_double 10 = 10"
    by (simp add: round_double_numeral)
  have "(0::real) \<le> 9.81" "(9.81::real) \<le> 10"
    by simp_all
  from d_fl_range_small [OF this round_double_zero g_hi]
  obtain g where g: "d_fl 9.81 = Fin g" "0 \<le> g" "g \<le> 10"
    by auto
  have "g + dr \<le> 2 powr of_int 1013 + D"
    using g(3) dr(3) p_ge by (intro add_mono) simp_all
  also have "\<dots> = D'"
    by (simp add: D_def D'_def)
  finally have "0 \<le> g + dr" "g + dr \<le> D'"
    using g(2) dr(2) by simp_all
  from d_fl_range [OF this round_double_zero D' zs D's]
  obtain gd where "d_fl (g + dr) = Fin gd" "0 \<le> gd"
    by auto
  then show ?thesis
    by (simp only: c(1) g(1) d_mul_Fin x1(1) dr(1) d_add.simps) blast
qed

lemma rne_le_pow53:
  assumes "0 < x"
  shows "rne (x / 2 powr of_int (ulp_exponent x)) \<le> 2 ^ 53"
proof -
  define p :: real where "p = 2 powr of_int (ulp_exponent x)"
  have ppos: "0 < p" by (simp add: p_def)
  have "x < 2 ^ 53 * p"
    using below_next_binade [OF assms] by (simp only: pow2_shift_53 p_def)
  then have "x / p < of_int (2 ^ 53)"
    using ppos by (simp add: pos_divide_less_eq)
  then show ?thesis
    unfolding p_def by (intro rne_le_int) simp
qed

lemma round_double_idem_pos:
  assumes "0 < x"
  shows "round_double (round_double x) = round_double x"
proof -
  define E where "E = ulp_exponent x"
  define n where "n = rne (x / 2 powr of_int E)"
  have r: "round_double x = of_int n * 2 powr of_int E"
    using assms by (simp add: round_double_pos n_def E_def)
  have n0: "0 \<le> n"
    unfolding n_def using assms by (intro rne_nonneg) simp
  have n1: "n \<le> 2 ^ 53"
    unfolding n_def E_def using assms by (rule rne_le_pow53)
  have E: "- 1074 \<le> E"
    unfolding E_def by (rule ulp_exponent_ge)
  show ?thesis
  proof (cases "n < 2 ^ 53")
    case True
    with n0 have "\<bar>n\<bar> < 2 ^ 53" by simp
    from round_double_dyadic [OF this E] show ?thesis
      unfolding r .
  next
    case False
    with n1 have n: "n = 2 ^ 53" by simp
    have "of_int n * 2 powr of_int E = of_int (2 ^ 52) * (2 powr of_int (E + 1) :: real)"
      using pow2_shift [of E 1] by (simp add: n)
    moreover have "round_double (of_int (2 ^ 52) * 2 powr of_int (E + 1))
        = of_int (2 ^ 52) * 2 powr of_int (E + 1)"
      using E by (intro round_double_dyadic) simp_all
    ultimately show ?thesis
      unfolding r by simp
  qed
qed

lemma round_double_idem: "round_double (round_double x) = round_double x"
proof -
  consider "0 < x" | "x = 0" | "x < 0" by linarith
  then show ?thesis
  proof cases
    case 1
    then show ?thesis by (rule round_double_idem_pos)
  next
    case 2
    then show ?thesis by simp
  next
    case 3
    then have "round_double (round_double (- x)) = round_double (- x)"
      by (intro round_double_idem_pos) simp
    then show ?thesis by (simp add: round_double_uminus)
  qed
qed

lemma d_fl_is_double:
  assumes "d_fl x = Fin r"
  shows "is_double r"
proof -
  from assms have "r = round_double x" and "\<bar>round_double x\<bar> < overflow_threshold"
    by (auto simp add: d_fl_def Let_def abs_less_iff not_le split: if_splits)
  then show ?thesis
    unfolding is_double_def by (simp add: d_fl_exact round_double_idem)
qed

lemma clamped_decrease_double:
  assumes "is_double x" and "0 \<le> p" and "is_double f"
    and "d_max (d_sub (Fin x) (d_fl p)) (Fin f) = Fin r"
  shows "is_double r"
proof (cases "d_sub (Fin x) (d_fl p)")
  case (Fin y)
  have "is_double y"
  proof (cases "d_fl p")
    case (Fin w)
    with \<open>d_sub (Fin x) (d_fl p) = Fin y\<close> have "d_fl (x - w) = Fin y" by simp
    then show ?thesis by (rule d_fl_is_double)
  qed (use Fin in \<open>simp_all add: d_sub_def\<close>)
  with Fin assms(3,4) show ?thesis
    by (auto split: if_splits)
next
  case PInf
  with assms(4) show ?thesis by (simp split: if_splits)
next
  case NInf
  with assms(3,4) show ?thesis by (simp split: if_splits)
next
  case NaN
  with assms(4) show ?thesis by simp
qed

lemma gl_less_irrefl [simp]: "\<not> gl_less x x"
  by (cases x) simp_all

lemma gl_less_PInf [simp]: "\<not> gl_less PInf y"
  by (cases y) simp_all

lemma d_fl_mono:
  assumes "x \<le> y"
  shows "\<not> gl_less (d_fl y) (d_fl x)"
  using round_double_mono [OF assms] overflow_threshold_pos
  by (simp add: d_fl_def Let_def)

lemma reduction_factor_double_value:
  assumes "0 \<le> m" and "m \<le> 4"
  shows "reductionFactor_double (Fin m) = Fin (round_double (1 - round_double (m / 5)))"
    and "0 < round_double (1 - round_double (m / 5))"
proof -
  define c :: real where "c = of_int 3602879701896397 / 2 ^ 52"
  define l :: real where "l = of_int 900719925474099 / 2 ^ 52"
  have c: "round_double c = c" unfolding c_def by (rule round_double_ratio) simp_all
  have l: "round_double l = l" unfolding l_def by (rule round_double_ratio) simp_all
  have cl: "1 - c = l" by (simp add: c_def l_def)
  have "0 \<le> m / 5" "m / 5 \<le> c"
    using assms by (simp_all add: c_def)
  then have q: "0 \<le> round_double (m / 5)" "round_double (m / 5) \<le> c"
    using round_double_mono [of 0 "m / 5"] round_double_mono [of "m / 5" c] c by simp_all
  then have "\<bar>round_double (m / 5)\<bar> \<le> 2 ^ 64"
    by (simp add: c_def)
  then have dq: "d_fl (m / 5) = Fin (round_double (m / 5))"
    by (intro d_fl_finite small_below_overflow)
  have "l \<le> 1 - round_double (m / 5)" "1 - round_double (m / 5) \<le> 1"
    using q cl by simp_all
  then have r: "l \<le> round_double (1 - round_double (m / 5))"
    "round_double (1 - round_double (m / 5)) \<le> 1"
    using round_double_mono [of l "1 - round_double (m / 5)"]
      round_double_mono [of "1 - round_double (m / 5)" 1] l by simp_all
  then have "\<bar>round_double (1 - round_double (m / 5))\<bar> \<le> 2 ^ 64"
    by (simp add: l_def)
  then have "d_fl (1 - round_double (m / 5)) = Fin (round_double (1 - round_double (m / 5)))"
    by (intro d_fl_finite small_below_overflow)
  then show "reductionFactor_double (Fin m) = Fin (round_double (1 - round_double (m / 5)))"
    by (simp add: reductionFactor_double_def dq)
  have "0 < l" by (simp add: l_def)
  with r(1) show "0 < round_double (1 - round_double (m / 5))" by simp
qed

lemma reduction_factor_double_mono:
  assumes "m1 \<le> m2"
  shows "round_double (1 - round_double (m2 / 5)) \<le> round_double (1 - round_double (m1 / 5))"
proof -
  have "m1 / 5 \<le> m2 / 5" using assms by simp
  then have "round_double (m1 / 5) \<le> round_double (m2 / 5)" by (rule round_double_mono)
  then have "1 - round_double (m2 / 5) \<le> 1 - round_double (m1 / 5)" by simp
  then show ?thesis by (rule round_double_mono)
qed

lemma heat_chain_mono:
  assumes "F = NaN \<or> F = PInf \<or> (\<exists>f. F = Fin f \<and> 0 \<le> f)"
    and "0 < r2" and "r2 \<le> r1" and "0 \<le> c"
  shows "\<not> gl_less (d_mul (d_mul F (Fin r1)) (Fin c)) (d_mul (d_mul F (Fin r2)) (Fin c))"
proof -
  from assms(1) consider "F = NaN" | "F = PInf" | f where "F = Fin f" "0 \<le> f" by blast
  then show ?thesis
  proof cases
    case 1
    then show ?thesis by simp
  next
    case 2
    with assms(2,3) show ?thesis by simp
  next
    case 3
    have le: "f * r2 \<le> f * r1"
      using assms(3) 3(2) by (intro mult_left_mono)
    have nn: "0 \<le> f * r2" "0 \<le> f * r1"
      using 3(2) assms(2,3) by simp_all
    from d_fl_nonneg [OF nn(1)] d_fl_nonneg [OF nn(2)] d_fl_mono [OF le]
    consider "d_fl (f * r1) = PInf"
      | w1 w2 where "d_fl (f * r1) = Fin w1" "d_fl (f * r2) = Fin w2" "w2 \<le> w1" "0 \<le> w2"
      by (auto simp add: not_less)
    then show ?thesis
    proof cases
      case 1
      then show ?thesis
        using assms(4) by (simp add: 3(1))
    next
      case 2
      have "w2 * c \<le> w1 * c"
        using 2(3) assms(4) by (intro mult_right_mono)
      from d_fl_mono [OF this] show ?thesis
        by (simp add: 3(1) 2(1,2))
    qed
  qed
qed

lemma d_fl_scalingFactor: "\<exists>c. d_fl scalingFactor = Fin c \<and> 0 \<le> c"
proof -
  have "0 \<le> scalingFactor" "scalingFactor \<le> 1"
    by (simp_all add: scalingFactor_def)
  from d_fl_range_small [OF this round_double_zero round_double_one]
  show ?thesis by auto
qed

lemma heat_flux_shape:
  assumes "is_double a" and "0 \<le> a" and "0 \<le> s"
  shows "\<exists>F. d_mul (d_mul (d_fl rho0) (d_exp (d_div (d_neg (Fin a)) (d_fl scaleHeight))))
              (d_pow3 (Fin s)) = F
           \<and> (F = NaN \<or> F = PInf \<or> (\<exists>f. F = Fin f \<and> 0 \<le> f))"
proof -
  from density_double [OF assms(1,2)] obtain \<rho> where
    rho: "d_mul (d_fl rho0) (d_exp (d_div (d_neg (Fin a)) (d_fl scaleHeight))) = Fin \<rho>"
      "0 \<le> \<rho>"
    by blast
  have "0 \<le> s ^ 3" using assms(3) by simp
  from d_fl_nonneg [OF this] show ?thesis
    unfolding rho(1) d_pow3.simps
  proof
    assume "d_fl (s ^ 3) = PInf"
    then show "\<exists>F. d_mul (Fin \<rho>) (d_fl (s ^ 3)) = F
        \<and> (F = NaN \<or> F = PInf \<or> (\<exists>f. F = Fin f \<and> 0 \<le> f))"
      using rho(2) by simp
  next
    assume "\<exists>w. d_fl (s ^ 3) = Fin w \<and> 0 \<le> w"
    then obtain w where w: "d_fl (s ^ 3) = Fin w" "0 \<le> w" by blast
    have "0 \<le> \<rho> * w" using rho(2) w(2) by simp
    from d_fl_nonneg [OF this]
    show "\<exists>F. d_mul (Fin \<rho>) (d_fl (s ^ 3)) = F
        \<and> (F = NaN \<or> F = PInf \<or> (\<exists>f. F = Fin f \<and> 0 \<le> f))"
      by (auto simp add: w(1))
  qed
qed

lemma heat_double_monotone:
  assumes "0 \<le> m1" and "m1 \<le> m2" and "m2 \<le> 4" and "is_double a" and "0 \<le> s"
  shows "\<not> gl_less
           (effectiveHeat_d (Starship_useFrame_double True (Fin m1)
              \<lparr>altitude_d = Fin a, speed_d = Fin s, effectiveHeat_d = h\<rparr> delta))
           (effectiveHeat_d (Starship_useFrame_double True (Fin m2)
              \<lparr>altitude_d = Fin a, speed_d = Fin s, effectiveHeat_d = h\<rparr> delta))"
proof (cases "0 < a")
  case False
  then have "gl_le (Fin a) (Fin 0)" by (simp add: gl_le_def)
  then show ?thesis by (simp add: Starship_useFrame_double_def)
next
  case True
  then have airborne: "\<not> gl_le (Fin a) (Fin 0)" by (simp add: gl_le_def)
  from True have "0 \<le> a" by simp
  from heat_flux_shape [OF assms(4) this assms(5)] obtain F where
    F: "d_mul (d_mul (d_fl rho0) (d_exp (d_div (d_neg (Fin a)) (d_fl scaleHeight))))
          (d_pow3 (Fin s)) = F"
      "F = NaN \<or> F = PInf \<or> (\<exists>f. F = Fin f \<and> 0 \<le> f)"
    by blast
  obtain c where c: "d_fl scalingFactor = Fin c" "0 \<le> c"
    using d_fl_scalingFactor by blast
  have in1: "0 \<le> m1" "m1 \<le> 4" and in2: "0 \<le> m2" "m2 \<le> 4"
    using assms(1-3) by simp_all
  note r1 = reduction_factor_double_value [OF in1]
  note r2 = reduction_factor_double_value [OF in2]
  have heat: "effectiveHeat_d (Starship_useFrame_double True (Fin m)
        \<lparr>altitude_d = Fin a, speed_d = Fin s, effectiveHeat_d = h\<rparr> delta)
      = d_mul (d_mul F (reductionFactor_double (Fin m))) (Fin c)" for m
    unfolding Starship_useFrame_double_def Let_def
    by (simp only: airborne F(1) c(1) doubleState.simps simp_thms if_True if_False)
  show ?thesis
    unfolding heat r1(1) r2(1)
    using F(2) r2(2) reduction_factor_double_mono [OF assms(2)] c(2)
    by (rule heat_chain_mono)
qed

subsection \<open>Properties of the step in binary64\<close>

text \<open>
  C3, as the claim states it, at magnetPower = 4, the upper end of the slider: the code's
  \<open>1 - 4 / 5\<close> is the double \<open>1801439850948198 / 2\<^sup>5\<^sup>3\<close> (printed as
  \<open>0.19999999999999996\<close>), below 0.2.
\<close>

theorem reduction_factor_below_fifth:
  "reductionFactor_double (Fin 4) = Fin (1801439850948198 / 2 ^ 53)
   \<and> gl_less (reductionFactor_double (Fin 4)) (Fin 0.2)"
  by (simp add: reduction_factor_double_at_4)

text \<open>
  C3, amended. For every magnet power in \<open>[0, 4]\<close> the reduction factor the code computes
  lies between the double \<open>1801439850948198 / 2\<^sup>5\<^sup>3\<close> (printed as
  \<open>0.19999999999999996\<close>) and 1; and for a fixed state and time step the effective heat a step publishes is not greater at the
  greater magnet power, in binary64 and in exact arithmetic alike.
\<close>

theorem shielding_range_rounded_and_monotone:
  assumes "0 \<le> m1" and "m1 \<le> m2" and "m2 \<le> 4" and "is_double a" and "0 \<le> s"
  shows "(\<exists>r. reductionFactor_double (Fin m1) = Fin r
            \<and> 1801439850948198 / 2 ^ 53 \<le> r \<and> r \<le> 1)
       \<and> (\<exists>r. reductionFactor_double (Fin m2) = Fin r
            \<and> 1801439850948198 / 2 ^ 53 \<le> r \<and> r \<le> 1)
       \<and> \<not> gl_less
           (effectiveHeat_d (Starship_useFrame_double True (Fin m1)
              \<lparr>altitude_d = Fin a, speed_d = Fin s, effectiveHeat_d = h\<rparr> delta))
           (effectiveHeat_d (Starship_useFrame_double True (Fin m2)
              \<lparr>altitude_d = Fin a, speed_d = Fin s, effectiveHeat_d = h\<rparr> delta))
       \<and> effectiveHeat (Starship_useFrame True m2
             \<lparr>altitude = a, speed = s, effectiveHeat = e\<rparr> dt)
           \<le> effectiveHeat (Starship_useFrame True m1
             \<lparr>altitude = a, speed = s, effectiveHeat = e\<rparr> dt)"
proof -
  have in1: "0 \<le> m1" "m1 \<le> 4" and in2: "0 \<le> m2" "m2 \<le> 4"
    using assms(1-3) by simp_all
  have "0 \<le> speed \<lparr>altitude = a, speed = s, effectiveHeat = e\<rparr>"
    using assms(5) by simp
  from reduction_factor_double_range [OF in1] reduction_factor_double_range [OF in2]
    heat_double_monotone [OF assms] heat_monotone_exact [OF this assms(2)]
  show ?thesis by blast
qed

theorem shielding_range_rounded_and_monotone_witness:
  "(0::real) \<le> 1 \<and> (1::real) \<le> 4 \<and> (4::real) \<le> 4 \<and> is_double 120000 \<and> (0::real) \<le> 7222
   \<and> (\<exists>r. reductionFactor_double (Fin 4) = Fin r
         \<and> 1801439850948198 / 2 ^ 53 \<le> r \<and> r \<le> 1)
   \<and> \<not> gl_less
        (effectiveHeat_d (Starship_useFrame_double True (Fin 1)
           \<lparr>altitude_d = Fin 120000, speed_d = Fin 7222, effectiveHeat_d = Fin 0\<rparr> (Fin 1)))
        (effectiveHeat_d (Starship_useFrame_double True (Fin 4)
           \<lparr>altitude_d = Fin 120000, speed_d = Fin 7222, effectiveHeat_d = Fin 0\<rparr> (Fin 1)))"
proof -
  have d: "is_double 120000"
    by (simp add: is_double_def d_fl_numeral)
  have h: "(0::real) \<le> 1" "(1::real) \<le> 4" "(4::real) \<le> 4" "(0::real) \<le> 7222"
    by simp_all
  from shielding_range_rounded_and_monotone [OF h(1-3) d h(4)] d h
  show ?thesis by blast
qed

text \<open>
  C9, as the claim states it, at altitude \<open>1e7\<close> and speed \<open>2\<^sup>3\<^sup>4\<^sup>2\<close> (about \<open>9e102\<close>), both
  non-negative doubles, with a time step of 1: the density underflows to 0, the cube of
  the speed overflows to infinity, and the effective heat the step publishes is NaN.
\<close>

theorem heat_is_NaN_on_overflow:
  "effectiveHeat_d (Starship_useFrame_double True (Fin 0)
      \<lparr>altitude_d = Fin 10000000, speed_d = Fin (2 ^ 342), effectiveHeat_d = Fin 0\<rparr>
      (Fin 1)) = NaN"
proof -
  have lo: "round_double (- 1191) = - 1191" and hi: "round_double (- 1190) = - 1190"
    by (simp_all add: round_double_uminus round_double_numeral)
  have "(- 1191::real) \<le> - 10000000 / 8400" "(- 10000000 / 8400 :: real) \<le> - 1190"
    by simp_all
  from d_fl_range_small [OF this lo hi]
  obtain y where y: "d_fl (- 10000000 / 8400) = Fin y" "y \<le> - 1190"
    by auto
  have arg: "d_div (d_neg (Fin 10000000)) (d_fl scaleHeight) = Fin y"
    using y(1) by (simp add: d_fl_scaleHeight)
  obtain r where r: "d_fl rho0 = Fin r"
    using d_fl_rho0 by blast
  have rho: "d_mul (d_fl rho0) (d_exp (d_div (d_neg (Fin 10000000)) (d_fl scaleHeight))) = Fin 0"
    by (simp only: arg d_exp.simps exp_underflows [OF y(2)] r d_mul.simps mult_zero_right
        d_fl_zero)
  have airborne: "\<not> gl_le (Fin 10000000) (Fin 0)"
    by (simp add: gl_le_def)
  show ?thesis
    unfolding Starship_useFrame_double_def Let_def
    by (simp only: airborne rho pow3_overflows doubleState.simps simp_thms if_True if_False
        d_mul.simps gl_scale.simps d_mul_NaN) simp
qed

text \<open>
  C9, amended. The step preserves the invariant of the simulation state in binary64:
  from a state whose altitude and speed are non-negative doubles, for every non-negative
  time step and every magnet power, the new altitude and the new speed are again
  non-negative doubles (never NaN, never negative), and the new altitude is
  \<open>max (altitude - newSpeed * dt) 0\<close>. The effective heat published with them is not
  covered: it can be NaN.
\<close>

theorem double_step_preserves_invariant:
  assumes "is_double a" and "is_double s" and "0 \<le> a" and "0 \<le> s" and "0 \<le> dt"
  shows "\<exists>a' s'.
           altitude_d (Starship_useFrame_double True magnetPower
              \<lparr>altitude_d = Fin a, speed_d = Fin s, effectiveHeat_d = h\<rparr> (Fin dt)) = Fin a'
         \<and> speed_d (Starship_useFrame_double True magnetPower
              \<lparr>altitude_d = Fin a, speed_d = Fin s, effectiveHeat_d = h\<rparr> (Fin dt)) = Fin s'
         \<and> is_double a' \<and> is_double s' \<and> 0 \<le> a' \<and> 0 \<le> s'
         \<and> Fin a' = d_max (d_sub (Fin a) (d_mul (Fin s') (Fin dt))) (Fin 0)"
proof (cases "0 < a")
  case True
  have d200: "is_double 200" and d0: "is_double 0"
    by (simp_all add: is_double_def d_fl_numeral)
  from density_double [OF assms(1,3)] obtain \<rho> where
    rho: "d_mul (d_fl rho0) (d_exp (d_div (d_neg (Fin a)) (d_fl scaleHeight))) = Fin \<rho>"
      "0 \<le> \<rho>" "\<rho> \<le> 157 / 128"
    by blast
  from drag_double [OF rho(2,3) assms(2,4)] obtain gd where
    gd: "d_add (d_fl 9.81) (d_mul (d_mul (Fin \<rho>) (d_fl 0.81)) (Fin s)) = Fin gd" "0 \<le> gd"
    by blast
  have p1: "0 \<le> gd * dt" using gd(2) assms(5) by simp
  from clamped_decrease [OF assms(2) p1, of 200] obtain v where
    v: "d_max (d_sub (Fin s) (d_fl (gd * dt))) (Fin 200) = Fin v" "200 \<le> v"
    by blast
  have dv: "is_double v"
    using assms(2) p1 d200 v(1) by (rule clamped_decrease_double)
  have p2: "0 \<le> v * dt" using v(2) assms(5) by simp
  from clamped_decrease [OF assms(1) p2, of 0] obtain a' where
    a': "d_max (d_sub (Fin a) (d_fl (v * dt))) (Fin 0) = Fin a'" "0 \<le> a'"
    by blast
  have da: "is_double a'"
    using assms(1) p2 d0 a'(1) by (rule clamped_decrease_double)
  have airborne: "\<not> gl_le (Fin a) (Fin 0)" "gl_less (Fin 0) (Fin a)"
    using True by (simp_all add: gl_le_def)
  have alt: "altitude_d (Starship_useFrame_double True magnetPower
      \<lparr>altitude_d = Fin a, speed_d = Fin s, effectiveHeat_d = h\<rparr> (Fin dt)) = Fin a'"
    and spd: "speed_d (Starship_useFrame_double True magnetPower
      \<lparr>altitude_d = Fin a, speed_d = Fin s, effectiveHeat_d = h\<rparr> (Fin dt)) = Fin v"
    unfolding Starship_useFrame_double_def Let_def
    by (simp_all only: airborne rho gd d_mul_Fin d_fl_terminalVelocity v(1) a'(1)
        doubleState.simps simp_thms if_True if_False)
  show ?thesis
    unfolding alt spd using a' v(2) da dv by (simp only: d_mul_Fin) auto
next
  case False
  with assms(3) have z: "a = 0" by simp
  have "0 \<le> s * dt" using assms(4,5) by simp
  from clamped_decrease [OF assms(1) this, of 0] obtain r where
    r: "d_max (d_sub (Fin a) (d_fl (s * dt))) (Fin 0) = Fin r" "0 \<le> r" "r \<le> max a 0"
    by blast
  with z have "r = 0" by simp
  with r(1) z have "Fin 0 = d_max (d_sub (Fin 0) (d_mul (Fin s) (Fin dt))) (Fin 0)"
    by simp
  then show ?thesis
    using assms(1,2,4) z by (simp add: Starship_useFrame_double_def gl_le_def)
qed

theorem double_step_preserves_invariant_witness:
  "is_double 120000 \<and> is_double 7222 \<and> (0::real) \<le> 120000 \<and> (0::real) \<le> 7222
   \<and> (0::real) \<le> 1
   \<and> (\<exists>a' s'.
         altitude_d (Starship_useFrame_double True (Fin 0)
            \<lparr>altitude_d = Fin 120000, speed_d = Fin 7222, effectiveHeat_d = Fin 0\<rparr>
            (Fin 1)) = Fin a'
       \<and> speed_d (Starship_useFrame_double True (Fin 0)
            \<lparr>altitude_d = Fin 120000, speed_d = Fin 7222, effectiveHeat_d = Fin 0\<rparr>
            (Fin 1)) = Fin s'
       \<and> 0 \<le> a' \<and> 0 \<le> s')"
proof -
  have d: "is_double 120000" "is_double 7222"
    by (simp_all add: is_double_def d_fl_numeral)
  have h: "(0::real) \<le> 120000" "(0::real) \<le> 7222" "(0::real) \<le> 1"
    by simp_all
  from double_step_preserves_invariant [OF d h, of "Fin 0" "Fin 0"] d h
  show ?thesis by blast
qed

subsection \<open>Properties of the colour bands\<close>

lemma colorBands_plasma:
  "temperature \<ge> plasmaThreshold u \<Longrightarrow>
   colorBands u temperature = (128 / 255, 0, 128 / 255)"
  by (simp add: colorBands_def)

lemma colorBands_ramp:
  "temperature < plasmaThreshold u \<Longrightarrow>
   colorBands u temperature =
     ((temperature - baseTemp u) / (plasmaThreshold u - baseTemp u), 0,
      1 - (temperature - baseTemp u) / (plasmaThreshold u - baseTemp u))"
  by (simp add: colorBands_def Let_def)

lemma ramp_not_plasma:
  "temperature < plasmaThreshold u \<Longrightarrow> colorBands u temperature \<noteq> (128 / 255, 0, 128 / 255)"
  by (auto simp add: colorBands_ramp)

lemma ramp_limit:
  assumes "baseTemp u < plasmaThreshold u"
  shows "((\<lambda>T. colorBands u T) \<longlongrightarrow> (1, 0, 0)) (at_left (plasmaThreshold u))"
proof -
  let ?b = "baseTemp u" and ?p = "plasmaThreshold u"
  let ?g = "\<lambda>T. ((T - ?b) / (?p - ?b), 0::real, 1 - (T - ?b) / (?p - ?b))"
  have "(?g \<longlongrightarrow> ?g ?p) (at_left ?p)"
    using assms by (intro tendsto_intros) simp_all
  moreover have "?g ?p = (1, 0, 0)"
    using assms by simp
  ultimately have lim: "(?g \<longlongrightarrow> (1, 0, 0)) (at_left ?p)"
    by simp
  have "eventually (\<lambda>T. ?g T = colorBands u T) (at_left ?p)"
    by (simp add: eventually_at_filter colorBands_ramp)
  with lim show ?thesis
    by (rule Lim_transform_eventually)
qed

text \<open>
  C4, as the claim states it, at the material's uniforms and the temperature 3000 (the
  threshold): the plasma colour of the code is \<open>128/255\<close> per channel, which is not 0.502.
\<close>

theorem plasma_color_not_0502:
  "colorBands material_uniforms 3000 \<noteq> (0.502, 0, 0.502)"
  by (simp add: colorBands_def material_uniforms_def)

text \<open>
  C4, amended. The colour ramp has a hard discontinuity at the plasma threshold: at or
  above the threshold the colour is exactly the fixed plasma colour
  \<open>(128/255, 0, 128/255)\<close>; below it the colour is \<open>(t, 0, 1 - t)\<close> with
  \<open>t = (temperature - baseTemp) / (plasmaThreshold - baseTemp)\<close>, which is never the plasma
  colour and tends to pure red \<open>(1, 0, 0)\<close> as the temperature approaches the threshold
  from below.
\<close>

theorem color_bands_discontinuity:
  assumes "baseTemp u < plasmaThreshold u"
  shows "(temperature \<ge> plasmaThreshold u \<longrightarrow>
            colorBands u temperature = (128 / 255, 0, 128 / 255))
       \<and> (temperature < plasmaThreshold u \<longrightarrow>
            colorBands u temperature =
              ((temperature - baseTemp u) / (plasmaThreshold u - baseTemp u), 0,
               1 - (temperature - baseTemp u) / (plasmaThreshold u - baseTemp u))
            \<and> colorBands u temperature \<noteq> (128 / 255, 0, 128 / 255))
       \<and> ((\<lambda>T. colorBands u T) \<longlongrightarrow> (1, 0, 0)) (at_left (plasmaThreshold u))"
  using ramp_limit [OF assms]
  by (simp add: colorBands_plasma colorBands_ramp ramp_not_plasma)

theorem color_bands_discontinuity_witness:
  "baseTemp material_uniforms < plasmaThreshold material_uniforms
   \<and> colorBands material_uniforms 3000 = (128 / 255, 0, 128 / 255)
   \<and> colorBands material_uniforms 2999 = (2699 / 2700, 0, 1 / 2700)"
  using color_bands_discontinuity [of material_uniforms 3000]
    color_bands_discontinuity [of material_uniforms 2999]
  by (simp add: material_uniforms_def)

text \<open>
  C7. With an effective heat of 0 the temperature is the base temperature at every
  point, so \<open>t = 0\<close> and the colour is pure blue \<open>(0, 0, 1)\<close>, never the plasma colour;
  in the sample of the ray-marching loop and in the surface shader alike.
\<close>

theorem zero_heat_is_blue:
  assumes "valid_uniforms u" and "effectiveHeat_uniform u = 0"
  shows "sample_temperature u p = baseTemp u
       \<and> colorBands u (sample_temperature u p) = (0, 0, 1)
       \<and> colorBands u (sample_temperature u p) \<noteq> plasmaColor
       \<and> surface_temperature u p = baseTemp u
       \<and> surface_main u p = ((0, 0, 1), 0.8)
       \<and> fst (surface_main u p) \<noteq> plasmaColor"
  using assms
  by (simp add: valid_uniforms_def sample_temperature_def surface_temperature_def
      surface_main_def colorBands_def plasmaColor_def Let_def)

theorem zero_heat_is_blue_witness:
  "valid_uniforms material_uniforms \<and> effectiveHeat_uniform material_uniforms = 0
   \<and> colorBands material_uniforms (sample_temperature material_uniforms (1, 2, 3)) = (0, 0, 1)
   \<and> surface_main material_uniforms (1, 2, 3) = ((0, 0, 1), 0.8)"
proof -
  have v: "valid_uniforms material_uniforms"
    by (simp add: valid_uniforms_def material_uniforms_def)
  have z: "effectiveHeat_uniform material_uniforms = 0"
    by (simp add: material_uniforms_def)
  from zero_heat_is_blue [OF v z, of "(1, 2, 3)"] v z show ?thesis
    by blast
qed

subsection \<open>Properties of the ray march\<close>

lemma sqrt_9: "sqrt 9 = 3"
proof -
  have "sqrt 9 = sqrt (3\<^sup>2)" by simp
  also have "\<dots> = 3" by (simp only: real_sqrt_abs abs_numeral)
  finally show ?thesis .
qed

lemma length_vec3_zero_iff: "length_vec3 v = 0 \<longleftrightarrow> v = (0, 0, 0)"
proof (cases v)
  case (fields x y z)
  have "x * x + y * y + z * z = 0 \<longleftrightarrow> x = 0 \<and> y = 0 \<and> z = 0"
  proof
    assume e: "x * x + y * y + z * z = 0"
    have "0 \<le> x * x" "0 \<le> y * y" "0 \<le> z * z" by simp_all
    with e have "x * x = 0 \<and> y * y = 0 \<and> z * z = 0" by linarith
    then show "x = 0 \<and> y = 0 \<and> z = 0" by simp
  qed simp
  with fields show ?thesis by simp
qed


lemma length_vscale: "length_vec3 (vscale v k) = \<bar>k\<bar> * length_vec3 v"
proof (cases v)
  case (fields x y z)
  have "x * k * (x * k) + y * k * (y * k) + z * k * (z * k) = k\<^sup>2 * (x * x + y * y + z * z)"
    by (simp add: power2_eq_square algebra_simps)
  then have "sqrt (x * k * (x * k) + y * k * (y * k) + z * k * (z * k))
           = sqrt (k\<^sup>2) * sqrt (x * x + y * y + z * z)"
    by (simp only: real_sqrt_mult)
  with fields show ?thesis by simp
qed

lemma squares_underflow_zero: "squares_underflow (0, 0, 0)"
  by simp

lemma normalize_unit:
  assumes "\<not> squares_underflow v"
  shows "\<exists>d. normalize_vec3 v = Some d \<and> length_vec3 d = 1"
proof -
  have "v \<noteq> (0, 0, 0)"
    using assms squares_underflow_zero by auto
  then have nz: "length_vec3 v \<noteq> 0" by (simp add: length_vec3_zero_iff)
  have "0 \<le> length_vec3 v" by (cases v) simp
  with nz have pos: "0 < length_vec3 v" by simp
  have "length_vec3 (vscale v (1 / length_vec3 v)) = 1"
    using pos by (simp add: length_vscale)
  with assms show ?thesis by (simp add: normalize_vec3_def)
qed

lemma main_undefined_iff:
  "fst (raymarch_main u vPosition) = UndefinedDirection
     \<longleftrightarrow> squares_underflow (vsub vPosition (rayOrigin u))"
proof (cases "squares_underflow (vsub vPosition (rayOrigin u))")
  case True
  then have "normalize_vec3 (vsub vPosition (rayOrigin u)) = None"
    by (simp add: normalize_vec3_def)
  with True show ?thesis by (simp add: raymarch_main_def)
next
  case False
  from normalize_unit [OF this] obtain d where
    d: "normalize_vec3 (vsub vPosition (rayOrigin u)) = Some d" by blast
  with False show ?thesis
    by (auto simp add: raymarch_main_def Let_def split: prod.splits glfloat.splits)
qed

text \<open>
  Coverage of the slab model. A NaN arises on an axis only when the ray is parallel to
  the slab (\<open>dir = 0\<close>) and its origin lies exactly on one of the two planes; in every
  other case the fragment is discarded or marched over a finite interval.
\<close>

lemma slab_axis_finite:
  assumes "dir \<noteq> 0"
  shows "\<exists>a b. slab_axis halfSize origin dir = (Fin a, Fin b)"
  using assms by (simp add: slab_axis_def gl_recip_def gl_min_def gl_max_def Let_def)

lemma slab_axis_not_NaN:
  assumes "dir \<noteq> 0 \<or> (origin \<noteq> halfSize \<and> origin \<noteq> - halfSize)"
  shows "fst (slab_axis halfSize origin dir) \<noteq> NaN
       \<and> snd (slab_axis halfSize origin dir) \<noteq> NaN"
  using assms
  by (auto simp add: slab_axis_def gl_recip_def gl_min_def gl_max_def Let_def)

lemma tmin_shape:
  assumes "x \<noteq> NaN" and "y \<noteq> NaN" and "z \<noteq> NaN"
    and "(\<exists>a. x = Fin a) \<or> (\<exists>a. y = Fin a) \<or> (\<exists>a. z = Fin a)"
  shows "(\<exists>m. gl_max (gl_max x y) z = Fin m) \<or> gl_max (gl_max x y) z = PInf"
  using assms by (cases x; cases y; cases z; simp add: gl_max_def)

lemma tmax_shape:
  assumes "x \<noteq> NaN" and "y \<noteq> NaN" and "z \<noteq> NaN"
    and "(\<exists>a. x = Fin a) \<or> (\<exists>a. y = Fin a) \<or> (\<exists>a. z = Fin a)"
  shows "(\<exists>m. gl_min (gl_min x y) z = Fin m) \<or> gl_min (gl_min x y) z = NInf"
  using assms by (cases x; cases y; cases z; simp add: gl_min_def)

lemma interval_finite_or_empty:
  assumes "(\<exists>m. lo = Fin m) \<or> lo = PInf" and "(\<exists>m. hi = Fin m) \<or> hi = NInf"
  shows "no_intersection (lo, hi) \<or> (\<exists>a b. (lo, hi) = (Fin a, Fin b))"
  using assms by (auto simp add: no_intersection_def)

lemma unit_has_component:
  assumes "normalize_vec3 v = Some (dx, dy, dz)"
  shows "dx \<noteq> 0 \<or> dy \<noteq> 0 \<or> dz \<noteq> 0"
proof -
  from assms have nu: "\<not> squares_underflow v"
    by (auto simp add: normalize_vec3_def split: if_splits)
  from normalize_unit [OF nu] assms have "length_vec3 (dx, dy, dz) = 1" by auto
  then show ?thesis by auto
qed

lemma marched_or_discarded:
  assumes "normalize_vec3 (vsub vPosition (rayOrigin u)) = Some (dx, dy, dz)"
    and "boxHalfSize u = (hx, hy, hz)" and "rayOrigin u = (ox, oy, oz)"
    and "dx \<noteq> 0 \<or> (ox \<noteq> hx \<and> ox \<noteq> - hx)"
    and "dy \<noteq> 0 \<or> (oy \<noteq> hy \<and> oy \<noteq> - hy)"
    and "dz \<noteq> 0 \<or> (oz \<noteq> hz \<and> oz \<noteq> - hz)"
  shows "fst (raymarch_main u vPosition) \<noteq> NonFiniteInterval"
proof -
  let ?px = "slab_axis hx ox dx" and ?py = "slab_axis hy oy dy" and ?pz = "slab_axis hz oz dz"
  let ?lo = "gl_max (gl_max (fst ?px) (fst ?py)) (fst ?pz)"
  let ?hi = "gl_min (gl_min (snd ?px) (snd ?py)) (snd ?pz)"
  have ts: "slab_interval (boxHalfSize u) (rayOrigin u) (dx, dy, dz) = (?lo, ?hi)"
    by (simp add: assms(2,3) case_prod_beta Let_def)
  from unit_has_component [OF assms(1)]
  have "(\<exists>a b. ?px = (Fin a, Fin b)) \<or> (\<exists>a b. ?py = (Fin a, Fin b))
      \<or> (\<exists>a b. ?pz = (Fin a, Fin b))"
    using slab_axis_finite by blast
  then have fin_lo: "(\<exists>a. fst ?px = Fin a) \<or> (\<exists>a. fst ?py = Fin a) \<or> (\<exists>a. fst ?pz = Fin a)"
    and fin_hi: "(\<exists>a. snd ?px = Fin a) \<or> (\<exists>a. snd ?py = Fin a) \<or> (\<exists>a. snd ?pz = Fin a)"
    by auto
  note nx = slab_axis_not_NaN [OF assms(4)] and ny = slab_axis_not_NaN [OF assms(5)]
    and nz = slab_axis_not_NaN [OF assms(6)]
  have lo: "(\<exists>m. ?lo = Fin m) \<or> ?lo = PInf"
    using nx ny nz fin_lo by (intro tmin_shape) simp_all
  have hi: "(\<exists>m. ?hi = Fin m) \<or> ?hi = NInf"
    using nx ny nz fin_hi by (intro tmax_shape) simp_all
  from interval_finite_or_empty [OF lo hi]
  show ?thesis
  proof
    assume "no_intersection (?lo, ?hi)"
    then show ?thesis
      using assms(1) ts by (simp add: raymarch_main_def)
  next
    assume "\<exists>a b. (?lo, ?hi) = (Fin a, Fin b)"
    then obtain a b where ab: "(?lo, ?hi) = (Fin a, Fin b)" by blast
    show ?thesis
      using assms(1) ts ab
      by (simp add: raymarch_main_def Let_def case_prod_beta)
  qed
qed

text \<open>
  An axis-aligned ray that misses the box: straight up from \<open>(0, 100, 100)\<close>. The \<open>x\<close>
  slab gives \<open>(-\<infinity>, +\<infinity>)\<close>, the \<open>z\<close> slab \<open>(-\<infinity>, -\<infinity>)\<close>, and the fragment is discarded.
\<close>

lemma axis_aligned_miss:
  "slab_interval (50, 5, 50) (0, 100, 100) (0, 1, 0) = (Fin (- 105), NInf)
   \<and> raymarch_main (material_uniforms\<lparr>rayOrigin := (0, 100, 100)\<rparr>) (0, 101, 100)
       = (Discarded, [])"
  by (simp add: raymarch_main_def material_uniforms_def normalize_vec3_def no_intersection_def
      slab_axis_def gl_recip_def gl_min_def gl_max_def Let_def)

text \<open>Two concrete rays from the origin \<open>(0, 100, 100)\<close> and \<open>(10, 20, 20)\<close>.\<close>

lemma away_dir:
  "normalize_vec3 (vsub (1, 102, 102) (0, 100, 100)) = Some (1 / 3, 2 / 3, 2 / 3)"
  by (simp add: normalize_vec3_def sqrt_9)

lemma away_slab:
  "slab_interval (50, 5, 50) (0, 100, 100) (1 / 3, 2 / 3, 2 / 3)
     = (Fin (- 150), Fin (- 285 / 2))"
  by (simp add: slab_axis_def gl_recip_def gl_min_def gl_max_def Let_def)

lemma through_dir:
  "normalize_vec3 (vsub (7, 14, 14) (10, 20, 20)) = Some (- 1 / 3, - 2 / 3, - 2 / 3)"
  by (simp add: normalize_vec3_def sqrt_9)

lemma through_slab:
  "slab_interval (50, 5, 50) (10, 20, 20) (- 1 / 3, - 2 / 3, - 2 / 3)
     = (Fin (45 / 2), Fin (75 / 2))"
  by (simp add: slab_axis_def gl_recip_def gl_min_def gl_max_def Let_def)

text \<open>
  C5. A ray whose slab interval is empty (\<open>tmax < 0\<close> or \<open>tmin > tmax\<close>) is discarded:
  the fragment writes no colour, and the heat field is sampled at no position.
\<close>

theorem empty_interval_discards:
  assumes "normalize_vec3 (vsub vPosition (rayOrigin u)) = Some rayDir"
    and "slab_interval (boxHalfSize u) (rayOrigin u) rayDir = (tmin, tmax)"
    and "gl_less tmax (Fin 0) \<or> gl_less tmax tmin"
  shows "raymarch_main u vPosition = (Discarded, [])"
  using assms by (simp add: raymarch_main_def no_intersection_def)

theorem empty_interval_discards_witness:
  "normalize_vec3 (vsub (1, 102, 102)
      (rayOrigin (material_uniforms\<lparr>rayOrigin := (0, 100, 100)\<rparr>)))
     = Some (1 / 3, 2 / 3, 2 / 3)
   \<and> slab_interval (boxHalfSize (material_uniforms\<lparr>rayOrigin := (0, 100, 100)\<rparr>))
        (rayOrigin (material_uniforms\<lparr>rayOrigin := (0, 100, 100)\<rparr>)) (1 / 3, 2 / 3, 2 / 3)
     = (Fin (- 150), Fin (- 285 / 2))
   \<and> gl_less (Fin (- 285 / 2)) (Fin 0)
   \<and> raymarch_main (material_uniforms\<lparr>rayOrigin := (0, 100, 100)\<rparr>) (1, 102, 102)
     = (Discarded, [])"
proof -
  let ?u = "material_uniforms\<lparr>rayOrigin := (0, 100, 100)\<rparr>"
  have o: "rayOrigin ?u = (0, 100, 100)"
    by simp
  have b: "boxHalfSize ?u = (50, 5, 50)"
    by (simp add: material_uniforms_def)
  have dir: "normalize_vec3 (vsub (1, 102, 102) (rayOrigin ?u)) = Some (1 / 3, 2 / 3, 2 / 3)"
    by (simp only: o away_dir)
  have ts: "slab_interval (boxHalfSize ?u) (rayOrigin ?u) (1 / 3, 2 / 3, 2 / 3)
              = (Fin (- 150), Fin (- 285 / 2))"
    by (simp only: o b away_slab)
  have behind: "gl_less (Fin (- 285 / 2)) (Fin 0)"
    by simp
  from empty_interval_discards [OF dir ts disjI1 [OF behind]] dir ts behind
  show ?thesis by blast
qed




lemma march_fold:
  "march u rayDir tmin dt is (m, vis) =
     (fold (\<lambda>i m. vmax m (colorBands u (sample_temperature u
              (vadd (rayOrigin u) (vscale rayDir (tmin + dt * real i)))))) is m,
      vis @ map (\<lambda>i. vadd (rayOrigin u) (vscale rayDir (tmin + dt * real i))) is)"
  by (induction "is" arbitrary: m vis) (simp_all add: Let_def)

lemma Max_insert_max:
  fixes a b :: real
  assumes "finite A"
  shows "Max (insert (max a b) A) = Max (insert a (insert b A))"
proof (cases "A = {}")
  case True
  then show ?thesis by (simp add: max.commute)
next
  case False
  with assms show ?thesis by (simp add: max.assoc)
qed

lemma red_fold_vmax:
  "red (fold (\<lambda>i m. vmax m (c i)) is m) = Max (insert (red m) ((\<lambda>i. red (c i)) ` set is))"
proof (induction "is" arbitrary: m)
  case Nil
  then show ?case by simp
next
  case (Cons i "is")
  have "red (vmax m (c i)) = max (red m) (red (c i))"
    by (cases m; cases "c i") simp
  with Cons show ?case by (simp add: Max_insert_max)
qed

lemma green_fold_vmax:
  "green (fold (\<lambda>i m. vmax m (c i)) is m)
     = Max (insert (green m) ((\<lambda>i. green (c i)) ` set is))"
proof (induction "is" arbitrary: m)
  case Nil
  then show ?case by simp
next
  case (Cons i "is")
  have "green (vmax m (c i)) = max (green m) (green (c i))"
    by (cases m; cases "c i") simp
  with Cons show ?case by (simp add: Max_insert_max)
qed

lemma blue_fold_vmax:
  "blue (fold (\<lambda>i m. vmax m (c i)) is m)
     = Max (insert (blue m) ((\<lambda>i. blue (c i)) ` set is))"
proof (induction "is" arbitrary: m)
  case Nil
  then show ?case by simp
next
  case (Cons i "is")
  have "blue (vmax m (c i)) = max (blue m) (blue (c i))"
    by (cases m; cases "c i") simp
  with Cons show ?case by (simp add: Max_insert_max)
qed

lemma vec3_eqI: "red a = red b \<Longrightarrow> green a = green b \<Longrightarrow> blue a = blue b \<Longrightarrow> a = b"
  by (cases a; cases b) simp

text \<open>The running maximum depends on the set of indices visited, not on their order.\<close>

lemma fold_vmax_set:
  assumes "set is = set js"
  shows "fold (\<lambda>i m. vmax m (c i)) is m = fold (\<lambda>i m. vmax m (c i)) js m"
  by (rule vec3_eqI) (simp_all add: red_fold_vmax green_fold_vmax blue_fold_vmax assms)

lemma Max_insert_floor:
  fixes z :: real
  assumes "finite A" and "A \<noteq> {}" and "\<forall>a\<in>A. z \<le> a"
  shows "Max (insert z A) = Max A"
proof -
  obtain a where "a \<in> A" using assms(2) by blast
  with assms have "z \<le> Max A" by (meson Max_ge order_trans)
  with assms(1,2) show ?thesis by (simp add: max_def)
qed

lemma fold_vmax_channel_max:
  assumes "is \<noteq> []"
    and "\<forall>i\<in>set is. 0 \<le> red (c i) \<and> 0 \<le> green (c i) \<and> 0 \<le> blue (c i)"
  shows "fold (\<lambda>i m. vmax m (c i)) is (0, 0, 0) = channel_max (map c is)"
proof (rule vec3_eqI)
  have ne: "set is \<noteq> {}" using assms(1) by simp
  show "red (fold (\<lambda>i m. vmax m (c i)) is (0, 0, 0)) = red (channel_max (map c is))"
    using assms(2) ne
    by (simp add: red_fold_vmax channel_max_def Max_insert_floor image_image del: Max_insert)
  show "green (fold (\<lambda>i m. vmax m (c i)) is (0, 0, 0)) = green (channel_max (map c is))"
    using assms(2) ne
    by (simp add: green_fold_vmax channel_max_def Max_insert_floor image_image del: Max_insert)
  show "blue (fold (\<lambda>i m. vmax m (c i)) is (0, 0, 0)) = blue (channel_max (map c is))"
    using assms(2) ne
    by (simp add: blue_fold_vmax channel_max_def Max_insert_floor image_image del: Max_insert)
qed

lemma sample_temperature_ge_base:
  assumes "0 \<le> effectiveHeat_uniform u"
  shows "baseTemp u \<le> sample_temperature u p"
  using assms by (simp add: sample_temperature_def Let_def)

lemma colorBands_nonneg:
  assumes "baseTemp u < plasmaThreshold u" and "baseTemp u \<le> T"
  shows "0 \<le> red (colorBands u T) \<and> 0 \<le> green (colorBands u T)
       \<and> 0 \<le> blue (colorBands u T)"
  using assms by (simp add: colorBands_def Let_def)

lemma loop_indices_nonempty: "[0..<200::nat] \<noteq> []"
  by simp

lemma length_even_samples: "length (even_samples origin rayDir tmin tmax) = 200"
  by (simp add: even_samples_def)

lemma main_marches:
  assumes "normalize_vec3 (vsub vPosition (rayOrigin u)) = Some rayDir"
    and "slab_interval (boxHalfSize u) (rayOrigin u) rayDir = (Fin tmin, Fin tmax)"
    and "\<not> no_intersection (Fin tmin, Fin tmax)"
  shows "raymarch_main u vPosition =
      (FragColor (fst (march u rayDir tmin ((tmax - tmin) / 200) [0..<200]
                    ((0, 0, 0), []))) 0.4,
       snd (march u rayDir tmin ((tmax - tmin) / 200) [0..<200] ((0, 0, 0), [])))"
  using assms by (simp add: raymarch_main_def case_prod_beta Let_def)

lemma march_channel_max:
  assumes "valid_uniforms u" and "0 \<le> effectiveHeat_uniform u" and "is \<noteq> []"
  shows "march u rayDir tmin dt is ((0, 0, 0), []) =
      (channel_max (map (\<lambda>p. colorBands u (sample_temperature u p))
          (map (\<lambda>i. vadd (rayOrigin u) (vscale rayDir (tmin + dt * real i))) is)),
       map (\<lambda>i. vadd (rayOrigin u) (vscale rayDir (tmin + dt * real i))) is)"
proof -
  let ?pos = "\<lambda>i. vadd (rayOrigin u) (vscale rayDir (tmin + dt * real i))"
  let ?col = "\<lambda>i. colorBands u (sample_temperature u (?pos i))"
  have nonneg: "\<forall>i\<in>set is. 0 \<le> red (?col i) \<and> 0 \<le> green (?col i) \<and> 0 \<le> blue (?col i)"
    using assms(1,2)
    by (simp add: valid_uniforms_def colorBands_nonneg sample_temperature_ge_base)
  from fold_vmax_channel_max [OF assms(3) nonneg]
  have "fold (\<lambda>i m. vmax m (?col i)) is (0, 0, 0) = channel_max (map ?col is)" .
  then show ?thesis by (simp add: march_fold comp_def)
qed

lemma march_order:
  assumes "set order = set is"
  shows "fst (march u rayDir tmin dt order (m, vis)) = fst (march u rayDir tmin dt is (m, vis))"
  using assms by (simp add: march_fold fold_vmax_set [of order "is"])

text \<open>
  C8. For every intersecting ray (a defined direction and a finite slab interval with
  \<open>0 \<le> tmax\<close> and \<open>tmin \<le> tmax\<close>), with the non-negative effective heat of the data model,
  the fragment's colour is the per-channel maximum of the colours sampled at the 200
  evenly spaced positions over \<open>[tmin, tmax]\<close>, written with alpha 0.4; and running the
  loop over the 200 indices in any other order accumulates the same colour.
\<close>

theorem march_is_channel_max:
  assumes "valid_uniforms u" and "0 \<le> effectiveHeat_uniform u"
    and "normalize_vec3 (vsub vPosition (rayOrigin u)) = Some rayDir"
    and "slab_interval (boxHalfSize u) (rayOrigin u) rayDir = (Fin tmin, Fin tmax)"
    and "0 \<le> tmax" and "tmin \<le> tmax"
  shows "raymarch_main u vPosition =
           (FragColor
              (channel_max (map (\<lambda>p. colorBands u (sample_temperature u p))
                 (even_samples (rayOrigin u) rayDir tmin tmax))) 0.4,
            even_samples (rayOrigin u) rayDir tmin tmax)
       \<and> length (even_samples (rayOrigin u) rayDir tmin tmax) = 200
       \<and> (\<forall>order. mset order = mset [0..<200] \<longrightarrow>
             fst (march u rayDir tmin ((tmax - tmin) / 200) order ((0, 0, 0), []))
           = fst (march u rayDir tmin ((tmax - tmin) / 200) [0..<200] ((0, 0, 0), [])))"
proof -
  have keep: "\<not> no_intersection (Fin tmin, Fin tmax)"
    using assms(5,6) by (simp add: no_intersection_def)
  have loop: "march u rayDir tmin ((tmax - tmin) / 200) [0..<200] ((0, 0, 0), []) =
      (channel_max (map (\<lambda>p. colorBands u (sample_temperature u p))
          (even_samples (rayOrigin u) rayDir tmin tmax)),
       even_samples (rayOrigin u) rayDir tmin tmax)"
    unfolding even_samples_def
    by (rule march_channel_max [OF assms(1,2) loop_indices_nonempty])
  have first: "raymarch_main u vPosition =
           (FragColor
              (channel_max (map (\<lambda>p. colorBands u (sample_temperature u p))
                 (even_samples (rayOrigin u) rayDir tmin tmax))) 0.4,
            even_samples (rayOrigin u) rayDir tmin tmax)"
    by (simp only: main_marches [OF assms(3,4) keep] loop fst_conv snd_conv)
  have perm: "fst (march u rayDir tmin ((tmax - tmin) / 200) order ((0, 0, 0), []))
           = fst (march u rayDir tmin ((tmax - tmin) / 200) [0..<200] ((0, 0, 0), []))"
    if "mset order = mset [0..<200]" for order
    by (rule march_order) (rule mset_eq_setD [OF that])
  from first length_even_samples perm show ?thesis by blast
qed

theorem march_is_channel_max_witness:
  "valid_uniforms (material_uniforms\<lparr>effectiveHeat_uniform := 0.005, rayOrigin := (10, 20, 20)\<rparr>)
   \<and> normalize_vec3 (vsub (7, 14, 14) (10, 20, 20)) = Some (- 1 / 3, - 2 / 3, - 2 / 3)
   \<and> slab_interval (50, 5, 50) (10, 20, 20) (- 1 / 3, - 2 / 3, - 2 / 3)
        = (Fin (45 / 2), Fin (75 / 2))
   \<and> raymarch_main
        (material_uniforms\<lparr>effectiveHeat_uniform := 0.005, rayOrigin := (10, 20, 20)\<rparr>)
        (7, 14, 14)
      = (FragColor
           (channel_max (map (\<lambda>p. colorBands
                (material_uniforms\<lparr>effectiveHeat_uniform := 0.005, rayOrigin := (10, 20, 20)\<rparr>)
                (sample_temperature
                  (material_uniforms\<lparr>effectiveHeat_uniform := 0.005, rayOrigin := (10, 20, 20)\<rparr>)
                  p))
              (even_samples (10, 20, 20) (- 1 / 3, - 2 / 3, - 2 / 3) (45 / 2) (75 / 2)))) 0.4,
         even_samples (10, 20, 20) (- 1 / 3, - 2 / 3, - 2 / 3) (45 / 2) (75 / 2))"
proof -
  let ?u = "material_uniforms\<lparr>effectiveHeat_uniform := 0.005, rayOrigin := (10, 20, 20)\<rparr>"
  have o: "rayOrigin ?u = (10, 20, 20)"
    by simp
  have b: "boxHalfSize ?u = (50, 5, 50)"
    by (simp add: material_uniforms_def)
  have valid: "valid_uniforms ?u"
    by (simp add: valid_uniforms_def material_uniforms_def)
  have heat: "0 \<le> effectiveHeat_uniform ?u"
    by simp
  have dir: "normalize_vec3 (vsub (7, 14, 14) (rayOrigin ?u)) = Some (- 1 / 3, - 2 / 3, - 2 / 3)"
    by (simp only: o through_dir)
  have ts: "slab_interval (boxHalfSize ?u) (rayOrigin ?u) (- 1 / 3, - 2 / 3, - 2 / 3)
              = (Fin (45 / 2), Fin (75 / 2))"
    by (simp only: o b through_slab)
  have ahead: "(0::real) \<le> 75 / 2" and ordered: "(45 / 2 :: real) \<le> 75 / 2"
    by simp_all
  from march_is_channel_max [OF valid heat dir ts ahead ordered]
  have "raymarch_main ?u (7, 14, 14) =
      (FragColor
         (channel_max (map (\<lambda>p. colorBands ?u (sample_temperature ?u p))
            (even_samples (rayOrigin ?u) (- 1 / 3, - 2 / 3, - 2 / 3) (45 / 2) (75 / 2)))) 0.4,
       even_samples (rayOrigin ?u) (- 1 / 3, - 2 / 3, - 2 / 3) (45 / 2) (75 / 2))"
    by blast
  then have "raymarch_main ?u (7, 14, 14) =
      (FragColor
         (channel_max (map (\<lambda>p. colorBands ?u (sample_temperature ?u p))
            (even_samples (10, 20, 20) (- 1 / 3, - 2 / 3, - 2 / 3) (45 / 2) (75 / 2)))) 0.4,
       even_samples (10, 20, 20) (- 1 / 3, - 2 / 3, - 2 / 3) (45 / 2) (75 / 2))"
    by (simp only: o)
  with valid through_dir through_slab show ?thesis
    by blast
qed

end
